theory Spec2Isabelle
  imports Complex_Main "HOL-Library.Word"
begin

unbundle bit_operations_syntax

section \<open>LibTool.h: the marker stream decoding library of the AqMD3 examples\<close>

text \<open>
  The development embeds the header-only library \<^verbatim>\<open>LibTool.h\<close>: the helpers
  \<^verbatim>\<open>CeilDiv\<close> and \<^verbatim>\<open>AlignUp\<close>, the class \<^verbatim>\<open>ArraySegment\<close>, the marker
  value types and the class \<^verbatim>\<open>ZeroSuppress::MarkerStreamDecoder\<close>.

  Conventions of the embedding.
  \<^item> A C++ exception is a value of the datatype \<open>error\<close>, named after the exception
    class thrown. A function that mutates an object and may throw returns the outcome
    together with the object as it is when the function is left, so that what a
    throwing call has already changed stays visible.
  \<^item> \<^verbatim>\<open>std::vector::operator[]\<close> is unchecked. A read inside the vector returns the
    element; a read outside of it has no defined behaviour in C++ and is the outcome
    \<open>out_of_buffer_read\<close> here.
  \<^item> Marker elements are \<^verbatim>\<open>int32_t\<close>, modelled as \<open>32 word\<close>; \<^verbatim>\<open>uint32_t\<close> and
    \<^verbatim>\<open>uint64_t\<close> values are \<open>32 word\<close> and \<open>64 word\<close>; a marker tag
    (\<^verbatim>\<open>enum class MarkerTag : uint8_t\<close>) is an \<open>8 word\<close>, since \<^verbatim>\<open>MarkerTag(x)\<close>
    accepts every byte.
  \<^item> \<^verbatim>\<open>size_t\<close> is 64 bits wide and is a \<open>nat\<close> here; every \<^verbatim>\<open>size_t\<close> sum of the
    source is reduced modulo \<open>2 ^ 64\<close> by \<open>size_t_wrap\<close>.
  \<^item> Block indices and sample counts (\<^verbatim>\<open>int64_t\<close>, \<^verbatim>\<open>int32_t\<close>) are \<open>int\<close>. The
    \<^verbatim>\<open>int32_t\<close> sum \<^verbatim>\<open>preGateSamples + postGateSamples\<close> and the \<^verbatim>\<open>int64_t\<close>
    difference in the guard of \<^verbatim>\<open>AlignUp\<close> can leave their type; they wrap around in
    two's complement (\<open>int32_wrap\<close>, \<open>int64_wrap\<close>), which is what the compiled
    code does. The explicit range checks of the source (against
    \<^verbatim>\<open>std::numeric_limits<int64_t>::max()\<close>) are branches of the model, and a lemma
    shows that the remaining arithmetic of the stored sample count stays inside
    \<^verbatim>\<open>int64_t\<close> for the values the marker constructors produce.
\<close>

datatype error =
    invalid_argument
  | logic_error
  | runtime_error
  | overflow_error
  | out_of_buffer_read

subsection \<open>Machine integers\<close>

definition SIZE_MAX :: nat where
  "SIZE_MAX = 2 ^ 64 - 1"

definition size_t_wrap :: "nat \<Rightarrow> nat" where
  "size_t_wrap n = n mod 2 ^ 64"



subsection \<open>CeilDiv and AlignUp (instantiated at \<^verbatim>\<open>int64_t\<close>)\<close>





subsection \<open>ArraySegment\<close>

record 'a ArraySegment =
  m_data :: "'a list"
  m_offset :: nat
  m_size :: nat

text \<open>The constructor \<^verbatim>\<open>ArraySegment(data, offset, count)\<close>.\<close>

definition ArraySegment_ctor :: "'a list \<Rightarrow> nat \<Rightarrow> nat \<Rightarrow> error + 'a ArraySegment" where
  "ArraySegment_ctor data offset count =
     (if length data < size_t_wrap (offset + count) then Inl logic_error
      else Inr \<lparr>m_data = data, m_offset = offset, m_size = count\<rparr>)"

definition Size :: "'a ArraySegment \<Rightarrow> nat" where
  "Size s = m_size s"

text \<open>\<^verbatim>\<open>operator[]\<close>: \<^verbatim>\<open>return m_data[m_offset + index]\<close>, with no comparison to \<^verbatim>\<open>m_size\<close>.\<close>

definition subscript :: "'a ArraySegment \<Rightarrow> nat \<Rightarrow> error + 'a" where
  "subscript s i =
     (if size_t_wrap (m_offset s + i) < length (m_data s)
      then Inr (m_data s ! size_t_wrap (m_offset s + i))
      else Inl out_of_buffer_read)"

definition PopFront :: "nat \<Rightarrow> 'a ArraySegment \<Rightarrow> error option \<times> 'a ArraySegment" where
  "PopFront nbrElements s =
     (if Size s < nbrElements then (Some invalid_argument, s)
      else (None, s\<lparr>m_offset := size_t_wrap (m_offset s + nbrElements),
                     m_size := m_size s - nbrElements\<rparr>))"

text \<open>
  Proof vocabulary, not part of the source: the class invariant that the constructor
  establishes on a \<^verbatim>\<open>std::vector\<close>, whose size is a \<^verbatim>\<open>size_t\<close>, and the elements the
  segment shows.
\<close>

definition segment_ok :: "'a ArraySegment \<Rightarrow> bool" where
  "segment_ok s =
     (m_offset s + m_size s \<le> length (m_data s) \<and> length (m_data s) \<le> SIZE_MAX)"

definition window :: "'a ArraySegment \<Rightarrow> 'a list" where
  "window s = take (m_size s) (drop (m_offset s) (m_data s))"

subsection \<open>Marker tags and trigger markers\<close>

type_synonym MarkerTag = "8 word"

abbreviation NoneTag :: MarkerTag where "NoneTag \<equiv> 0x00"
abbreviation TriggerNormal :: MarkerTag where "TriggerNormal \<equiv> 0x01"
abbreviation TriggerAverager :: MarkerTag where "TriggerAverager \<equiv> 0x02"
abbreviation GateStartCst :: MarkerTag where "GateStartCst \<equiv> 0x04"
abbreviation GateStopCst :: MarkerTag where "GateStopCst \<equiv> 0x05"
abbreviation DummyGate :: MarkerTag where "DummyGate \<equiv> 0x08"
abbreviation RecordStop :: MarkerTag where "RecordStop \<equiv> 0x0a"

text \<open>
  \<^verbatim>\<open>triggerTimeSamples\<close> is a \<^verbatim>\<open>double\<close> in the source. The only value ever stored
  in it is \<^verbatim>\<open>-(double(low & 0xff) / 256.0)\<close>, an integer below 256 divided by a power
  of two, which a double represents exactly; the field is a \<open>real\<close> here.
\<close>

record TriggerMarker =
  tag :: MarkerTag
  triggerTimeSamples :: real
  absoluteSampleIndex :: "64 word"
  recordIndex :: "32 word"

definition TriggerMarker_default :: TriggerMarker where
  "TriggerMarker_default =
     \<lparr>tag = NoneTag, triggerTimeSamples = 0, absoluteSampleIndex = 0, recordIndex = 0\<rparr>"

definition RecordIndexMask :: "32 word" where
  "RecordIndexMask = 0x00ffffff"

text \<open>\<^verbatim>\<open>StandardStreaming::IsTriggerMarkerTag\<close> and the decoder's private copy of it.\<close>

definition IsTriggerMarkerTag :: "MarkerTag \<Rightarrow> bool" where
  "IsTriggerMarkerTag t = (t = TriggerNormal \<or> t = TriggerAverager)"

text \<open>\<^verbatim>\<open>StandardStreaming::ExtractTag(uint32_t)\<close> and \<^verbatim>\<open>ZeroSuppress::ExtractTag(int32_t)\<close>.\<close>

definition StandardStreaming_ExtractTag :: "32 word \<Rightarrow> MarkerTag" where
  "StandardStreaming_ExtractTag element = ucast (element AND 0xff)"

definition ExtractTag :: "32 word \<Rightarrow> MarkerTag" where
  "ExtractTag header = ucast (header AND 0xff)"

type_synonym MarkerStream = "32 word ArraySegment"

text \<open>\<^verbatim>\<open>StandardStreaming::DecodeTriggerMarker\<close>.\<close>

definition StandardStreaming_DecodeTriggerMarker ::
  "MarkerStream \<Rightarrow> (error + TriggerMarker) \<times> MarkerStream" where
  "StandardStreaming_DecodeTriggerMarker stream =
     (case subscript stream 0 of
        Inl e \<Rightarrow> (Inl e, stream)
      | Inr header \<Rightarrow>
          let t = StandardStreaming_ExtractTag header in
          if \<not> IsTriggerMarkerTag t then (Inl runtime_error, stream)
          else
            (case subscript stream 1 of
               Inl e \<Rightarrow> (Inl e, stream)
             | Inr low \<Rightarrow>
                 (case subscript stream 2 of
                    Inl e \<Rightarrow> (Inl e, stream)
                  | Inr high \<Rightarrow>
                      let timestampLow = (ucast (drop_bit 8 low) :: 64 word) AND 0xffffff;
                          timestampHigh = push_bit 24 (ucast high :: 64 word);
                          result = \<lparr>tag = t,
                                    triggerTimeSamples = - (real (unat (low AND 0xff)) / 256),
                                    absoluteSampleIndex = timestampHigh OR timestampLow,
                                    recordIndex = drop_bit 8 header AND RecordIndexMask\<rparr>
                      in (case PopFront 16 stream of
                            (Some e, stream') \<Rightarrow> (Inl e, stream')
                          | (None, stream') \<Rightarrow> (Inr result, stream')))))"

subsection \<open>Gate start, stop and gate markers\<close>

text \<open>
  \<^verbatim>\<open>GateMarker::ExtractPosition\<close>. \<^verbatim>\<open>element0 >> 24\<close> shifts an \<^verbatim>\<open>int32_t\<close>, which
  keeps the sign; the mask \<^verbatim>\<open>0xff\<close> then leaves bits 24 to 31 as a value in 0..255.
\<close>

definition ExtractPosition :: "32 word \<Rightarrow> 32 word \<Rightarrow> int" where
  "ExtractPosition element0 element1 =
     (let low = uint (signed_drop_bit 24 element0 AND 0xff);
          high = push_bit 8 (uint (element1 AND 0xffffff))
      in high OR low)"

text \<open>
  \<^verbatim>\<open>GateStartMarker\<close> has the fields \<^verbatim>\<open>m_blockIndex\<close> and \<^verbatim>\<open>m_startSampleIndex\<close>.
\<close>

record GateStartMarker =
  m_blockIndex :: int
  m_startSampleIndex :: int

definition GateStartMarker_ctor :: "32 word \<Rightarrow> 32 word \<Rightarrow> error + GateStartMarker" where
  "GateStartMarker_ctor element0 element1 =
     (let t = ExtractTag element0 in
      if t \<noteq> GateStartCst then Inl invalid_argument
      else
        let blockIndex = ExtractPosition element0 element1 in
        if blockIndex < 1 then Inl invalid_argument
        else Inr \<lparr>m_blockIndex = blockIndex,
                  m_startSampleIndex = uint (signed_drop_bit 24 element1 AND 0xff)\<rparr>)"

text \<open>
  \<^verbatim>\<open>StopMarker\<close> has the fields \<^verbatim>\<open>m_blockIndex\<close>, \<^verbatim>\<open>m_gateEndIndex\<close> and \<^verbatim>\<open>m_tag\<close>;
  its block index is the field \<open>m_stopBlockIndex\<close> here, to keep the two apart.
\<close>

record StopMarker =
  m_stopBlockIndex :: int
  m_gateEndIndex :: int
  m_tag :: MarkerTag

definition StopMarker_ctor :: "32 word \<Rightarrow> 32 word \<Rightarrow> error + StopMarker" where
  "StopMarker_ctor element0 element1 =
     (let t = ExtractTag element0 in
      if t \<noteq> GateStopCst \<and> t \<noteq> RecordStop then Inl invalid_argument
      else
        let blockIndex = ExtractPosition element0 element1 in
        if blockIndex < 1 then Inl invalid_argument
        else Inr \<lparr>m_stopBlockIndex = blockIndex,
                  m_gateEndIndex = uint (signed_drop_bit 24 element1 AND 0xff),
                  m_tag = t\<rparr>)"

text \<open>The default constructor \<^verbatim>\<open>StopMarker()\<close>.\<close>

definition StopMarker_default :: StopMarker where
  "StopMarker_default = \<lparr>m_stopBlockIndex = 1, m_gateEndIndex = 0, m_tag = RecordStop\<rparr>"

definition IsRecordStop :: "StopMarker \<Rightarrow> bool" where
  "IsRecordStop stop = (m_tag stop = RecordStop)"

record GateMarker =
  m_startMarker :: GateStartMarker
  m_stopMarker :: StopMarker

definition GateMarker_ctor :: "GateStartMarker \<Rightarrow> StopMarker \<Rightarrow> error + GateMarker" where
  "GateMarker_ctor startMarker stopMarker =
     (if m_stopBlockIndex stopMarker < m_blockIndex startMarker then Inl invalid_argument
      else Inr \<lparr>m_startMarker = startMarker, m_stopMarker = stopMarker\<rparr>)"



subsection \<open>Record descriptors\<close>

record RecordDescriptor =
  m_trigger :: TriggerMarker
  m_gateList :: "GateMarker list"
  m_recordStop :: StopMarker

text \<open>
  \<^verbatim>\<open>RecordDescriptor()\<close> initialises \<^verbatim>\<open>m_trigger\<close> and \<^verbatim>\<open>m_gateList\<close>; \<^verbatim>\<open>m_recordStop\<close>
  is built by \<^verbatim>\<open>StopMarker()\<close>.
\<close>

definition RecordDescriptor_default :: RecordDescriptor where
  "RecordDescriptor_default =
     \<lparr>m_trigger = TriggerMarker_default, m_gateList = [], m_recordStop = StopMarker_default\<rparr>"

definition SetTriggerMarker :: "TriggerMarker \<Rightarrow> RecordDescriptor \<Rightarrow> RecordDescriptor" where
  "SetTriggerMarker t r = r\<lparr>m_trigger := t\<rparr>"

definition AddGate :: "GateMarker \<Rightarrow> RecordDescriptor \<Rightarrow> RecordDescriptor" where
  "AddGate gate r = r\<lparr>m_gateList := m_gateList r @ [gate]\<rparr>"

definition SetRecordStopMarker :: "StopMarker \<Rightarrow> RecordDescriptor \<Rightarrow> error + RecordDescriptor" where
  "SetRecordStopMarker recordStop r =
     (if \<not> IsRecordStop recordStop then Inl invalid_argument
      else Inr (r\<lparr>m_recordStop := recordStop\<rparr>))"

subsection \<open>MarkerStreamDecoder\<close>

datatype State = ExpectTrigger | ExpectGate | ExpectAlign

datatype Mode = Normal | ZeroSuppress

record MarkerStreamDecoder =
  m_recordQueue :: "RecordDescriptor list"
  m_currentRecord :: RecordDescriptor
  m_mode :: Mode
  m_state :: State

definition MarkerStreamDecoder_ctor :: "Mode \<Rightarrow> MarkerStreamDecoder" where
  "MarkerStreamDecoder_ctor mode =
     \<lparr>m_recordQueue = [], m_currentRecord = RecordDescriptor_default,
      m_mode = mode, m_state = ExpectTrigger\<rparr>"

definition GetAvailableRecordCount :: "MarkerStreamDecoder \<Rightarrow> nat" where
  "GetAvailableRecordCount d = length (m_recordQueue d)"

definition Pop :: "MarkerStreamDecoder \<Rightarrow> (error + RecordDescriptor) \<times> MarkerStreamDecoder" where
  "Pop d =
     (case m_recordQueue d of
        [] \<Rightarrow> (Inl logic_error, d)
      | front # rest \<Rightarrow> (Inr front, d\<lparr>m_recordQueue := rest\<rparr>))"

text \<open>
  The loop \<^verbatim>\<open>for (int i = 0; i < count; ++i) result.push_back(Pop())\<close> of \<^verbatim>\<open>Take\<close>,
  by recursion on the number of iterations left.
\<close>

fun Take_loop ::
  "nat \<Rightarrow> RecordDescriptor list \<Rightarrow> MarkerStreamDecoder
     \<Rightarrow> (error + RecordDescriptor list) \<times> MarkerStreamDecoder" where
  "Take_loop 0 result d = (Inr result, d)"
| "Take_loop (Suc k) result d =
     (case Pop d of
        (Inl e, d') \<Rightarrow> (Inl e, d')
      | (Inr r, d') \<Rightarrow> Take_loop k (result @ [r]) d')"

definition Take :: "int \<Rightarrow> MarkerStreamDecoder \<Rightarrow> (error + RecordDescriptor list) \<times> MarkerStreamDecoder" where
  "Take count d =
     (if count \<le> 0 then (Inl invalid_argument, d)
      else if GetAvailableRecordCount d < nat count then (Inl invalid_argument, d)
      else Take_loop (nat count) [] d)"

definition WalkthroughDummyMarker :: "MarkerStream \<Rightarrow> error option \<times> MarkerStream" where
  "WalkthroughDummyMarker stream =
     (case subscript stream 0 of
        Inl e \<Rightarrow> (Some e, stream)
      | Inr header \<Rightarrow>
          if ExtractTag header \<noteq> DummyGate then (Some logic_error, stream)
          else PopFront 2 stream)"

definition DecodeGateStartMarker :: "MarkerStream \<Rightarrow> (error + GateStartMarker) \<times> MarkerStream" where
  "DecodeGateStartMarker stream =
     (case subscript stream 0 of
        Inl e \<Rightarrow> (Inl e, stream)
      | Inr element0 \<Rightarrow>
          (case subscript stream 1 of
             Inl e \<Rightarrow> (Inl e, stream)
           | Inr element1 \<Rightarrow>
               (case GateStartMarker_ctor element0 element1 of
                  Inl e \<Rightarrow> (Inl e, stream)
                | Inr result \<Rightarrow>
                    (case PopFront 2 stream of
                       (Some e, stream') \<Rightarrow> (Inl e, stream')
                     | (None, stream') \<Rightarrow> (Inr result, stream')))))"

definition DecodeStopMarker :: "MarkerStream \<Rightarrow> (error + StopMarker) \<times> MarkerStream" where
  "DecodeStopMarker stream =
     (case subscript stream 0 of
        Inl e \<Rightarrow> (Inl e, stream)
      | Inr element0 \<Rightarrow>
          (case subscript stream 1 of
             Inl e \<Rightarrow> (Inl e, stream)
           | Inr element1 \<Rightarrow>
               (case StopMarker_ctor element0 element1 of
                  Inl e \<Rightarrow> (Inl e, stream)
                | Inr result \<Rightarrow>
                    (case PopFront 2 stream of
                       (Some e, stream') \<Rightarrow> (Inl e, stream')
                     | (None, stream') \<Rightarrow> (Inr result, stream')))))"

definition DecodeGateMarker :: "MarkerStream \<Rightarrow> (error + GateMarker) \<times> MarkerStream" where
  "DecodeGateMarker stream =
     (case DecodeGateStartMarker stream of
        (Inl e, stream') \<Rightarrow> (Inl e, stream')
      | (Inr start, stream') \<Rightarrow>
          (case DecodeStopMarker stream' of
             (Inl e, stream'') \<Rightarrow> (Inl e, stream'')
           | (Inr stop, stream'') \<Rightarrow>
               (case GateMarker_ctor start stop of
                  Inl e \<Rightarrow> (Inl e, stream'')
                | Inr gate \<Rightarrow> (Inr gate, stream''))))"

text \<open>\<^verbatim>\<open>ZeroSuppress::MarkerStreamDecoder::DecodeTriggerMarker\<close>.\<close>

definition DecodeTriggerMarker :: "MarkerStream \<Rightarrow> (error + TriggerMarker) \<times> MarkerStream" where
  "DecodeTriggerMarker stream =
     (case subscript stream 0 of
        Inl e \<Rightarrow> (Inl e, stream)
      | Inr header \<Rightarrow>
          let t = ExtractTag header in
          if \<not> IsTriggerMarkerTag t then (Inl runtime_error, stream)
          else
            (case subscript stream 1 of
               Inl e \<Rightarrow> (Inl e, stream)
             | Inr low \<Rightarrow>
                 (case subscript stream 2 of
                    Inl e \<Rightarrow> (Inl e, stream)
                  | Inr high \<Rightarrow>
                      let timestampLow = (ucast (drop_bit 8 low) :: 64 word) AND 0xffffff;
                          timestampHigh = push_bit 24 (ucast high :: 64 word);
                          result = \<lparr>tag = t,
                                    triggerTimeSamples = - (real (unat (low AND 0xff)) / 256),
                                    absoluteSampleIndex = timestampHigh OR timestampLow,
                                    recordIndex = drop_bit 8 header AND RecordIndexMask\<rparr>
                      in (case PopFront 16 stream of
                            (Some e, stream') \<Rightarrow> (Inl e, stream')
                          | (None, stream') \<Rightarrow> (Inr result, stream')))))"

definition DecodeNextMarkerNormalMode ::
  "MarkerStreamDecoder \<Rightarrow> MarkerStream \<Rightarrow> error option \<times> MarkerStreamDecoder \<times> MarkerStream" where
  "DecodeNextMarkerNormalMode d stream =
     (let recordDescriptor = RecordDescriptor_default in
      case DecodeTriggerMarker stream of
        (Inl e, stream') \<Rightarrow> (Some e, d, stream')
      | (Inr t, stream') \<Rightarrow>
          (None,
           d\<lparr>m_recordQueue := m_recordQueue d @ [SetTriggerMarker t recordDescriptor]\<rparr>,
           stream'))"

text \<open>
  The loop \<^verbatim>\<open>for (;;)\<close> at the head of \<^verbatim>\<open>DecodeNextMarkerZeroSuppressMode\<close> is left in
  one of three ways: by \<^verbatim>\<open>return\<close> on an empty stream, by \<^verbatim>\<open>break\<close> on a tag that
  is not \<^verbatim>\<open>DummyGate\<close>, or by an exception.
\<close>

datatype loop_exit = Returned | Broke | Thrown error

function walkthrough_all_dummies :: "MarkerStream \<Rightarrow> loop_exit \<times> MarkerStream" where
  "walkthrough_all_dummies stream =
     (if Size stream = 0 then (Returned, stream)
      else
        (case subscript stream 0 of
           Inl e \<Rightarrow> (Thrown e, stream)
         | Inr header \<Rightarrow>
             if ExtractTag header \<noteq> DummyGate then (Broke, stream)
             else
               (case WalkthroughDummyMarker stream of
                  (Some e, stream') \<Rightarrow> (Thrown e, stream')
                | (None, stream') \<Rightarrow> walkthrough_all_dummies stream')))"
  by pat_completeness auto

lemma PopFront_None_Size:
  "PopFront n s = (None, s') \<Longrightarrow> Size s' = Size s - n \<and> n \<le> Size s"
  by (auto simp: PopFront_def Size_def split: if_splits)

lemma WalkthroughDummyMarker_None_Size:
  "WalkthroughDummyMarker s = (None, s') \<Longrightarrow> Size s' = Size s - 2 \<and> 2 \<le> Size s"
  by (auto simp: WalkthroughDummyMarker_def split: sum.splits if_splits
           dest: PopFront_None_Size)

termination walkthrough_all_dummies
proof (relation "measure Size")
  show "wf (measure Size)" by simp
next
  fix stream :: MarkerStream and header x stream' opt
  assume "(opt, stream') = WalkthroughDummyMarker stream" "opt = None"
  then have "WalkthroughDummyMarker stream = (None, stream')" by simp
  from WalkthroughDummyMarker_None_Size [OF this]
  show "(stream', stream) \<in> measure Size" by simp
qed

declare walkthrough_all_dummies.simps [simp del]

text \<open>
  The tail of the \<^verbatim>\<open>ExpectGate\<close> branch: \<^verbatim>\<open>if (isRecordStop) { push_back; ExpectAlign }\<close>.
\<close>

definition complete_record ::
  "bool \<Rightarrow> MarkerStreamDecoder \<Rightarrow> MarkerStreamDecoder" where
  "complete_record isRecordStop d =
     (if isRecordStop
      then d\<lparr>m_recordQueue := m_recordQueue d @ [m_currentRecord d], m_state := ExpectAlign\<rparr>
      else d)"

definition DecodeNextMarkerZeroSuppressMode ::
  "MarkerStreamDecoder \<Rightarrow> MarkerStream \<Rightarrow> error option \<times> MarkerStreamDecoder \<times> MarkerStream" where
  "DecodeNextMarkerZeroSuppressMode d stream =
     (if m_state d = ExpectTrigger \<or> m_state d = ExpectAlign then
        (case walkthrough_all_dummies stream of
           (Returned, stream') \<Rightarrow> (None, d, stream')
         | (Thrown e, stream') \<Rightarrow> (Some e, d, stream')
         | (Broke, stream') \<Rightarrow>
             let d1 = d\<lparr>m_currentRecord := RecordDescriptor_default\<rparr> in
             (case DecodeTriggerMarker stream' of
                (Inl e, stream'') \<Rightarrow> (Some e, d1, stream'')
              | (Inr t, stream'') \<Rightarrow>
                  (None,
                   d1\<lparr>m_currentRecord := SetTriggerMarker t (m_currentRecord d1),
                      m_state := ExpectGate\<rparr>,
                   stream'')))
      else if m_state d = ExpectGate then
        (case subscript stream 0 of
           Inl e \<Rightarrow> (Some e, d, stream)
         | Inr header \<Rightarrow>
             let t = ExtractTag header in
             if t = GateStartCst then
               (case DecodeGateMarker stream of
                  (Inl e, stream') \<Rightarrow> (Some e, d, stream')
                | (Inr gate, stream') \<Rightarrow>
                    let d1 = d\<lparr>m_currentRecord := AddGate gate (m_currentRecord d)\<rparr>;
                        isRecordStop = IsRecordStop (m_stopMarker gate)
                    in
                    if IsRecordStop (m_stopMarker gate) then
                      (case SetRecordStopMarker (m_stopMarker gate) (m_currentRecord d1) of
                         Inl e \<Rightarrow> (Some e, d1, stream')
                       | Inr r \<Rightarrow>
                           (None, complete_record isRecordStop (d1\<lparr>m_currentRecord := r\<rparr>), stream'))
                    else (None, complete_record isRecordStop d1, stream'))
             else if t = RecordStop then
               (case DecodeStopMarker stream of
                  (Inl e, stream') \<Rightarrow> (Some e, d, stream')
                | (Inr stop, stream') \<Rightarrow>
                    (case SetRecordStopMarker stop (m_currentRecord d) of
                       Inl e \<Rightarrow> (Some e, d, stream')
                     | Inr r \<Rightarrow>
                         (None, complete_record (IsRecordStop stop) (d\<lparr>m_currentRecord := r\<rparr>), stream')))
             else (Some runtime_error, d, stream))
      else (Some runtime_error, d, stream))"

text \<open>
  \<^verbatim>\<open>DecodeNextMarker\<close>. \<open>Mode\<close> has the two values of the source's enumeration, so the
  final \<^verbatim>\<open>else throw std::logic_error\<close> has no input.
\<close>

definition DecodeNextMarker ::
  "MarkerStreamDecoder \<Rightarrow> MarkerStream \<Rightarrow> error option \<times> MarkerStreamDecoder \<times> MarkerStream" where
  "DecodeNextMarker d stream =
     (if Size stream = 0 then (Some runtime_error, d, stream)
      else
        (case m_mode d of
           ZeroSuppress \<Rightarrow> DecodeNextMarkerZeroSuppressMode d stream
         | Normal \<Rightarrow> DecodeNextMarkerNormalMode d stream))"

text \<open>
  \<open>n\<close> successive calls of \<^verbatim>\<open>DecodeNextMarker\<close> on the same decoder and stream; the
  first exception ends the sequence.
\<close>

fun DecodeNextMarker_times ::
  "nat \<Rightarrow> MarkerStreamDecoder \<Rightarrow> MarkerStream \<Rightarrow> error option \<times> MarkerStreamDecoder \<times> MarkerStream" where
  "DecodeNextMarker_times 0 d stream = (None, d, stream)"
| "DecodeNextMarker_times (Suc n) d stream =
     (case DecodeNextMarker d stream of
        (Some e, d', stream') \<Rightarrow> (Some e, d', stream')
      | (None, d', stream') \<Rightarrow> DecodeNextMarker_times n d' stream')"

subsection \<open>The decoders a program can hold\<close>

text \<open>
  Proof vocabulary, not part of the source. The members of \<^verbatim>\<open>MarkerStreamDecoder\<close> are
  private: a decoder is built by the constructor and changed by its public member
  functions \<^verbatim>\<open>DecodeNextMarker\<close>, \<^verbatim>\<open>Pop\<close> and \<^verbatim>\<open>Take\<close> only, whether the call returns
  or throws.
\<close>

inductive reachable :: "MarkerStreamDecoder \<Rightarrow> bool" where
  constructed: "reachable (MarkerStreamDecoder_ctor mode)"
| decoded: "reachable d \<Longrightarrow> DecodeNextMarker d stream = (thrown, d', stream') \<Longrightarrow> reachable d'"
| popped: "reachable d \<Longrightarrow> Pop d = (popped_record, d') \<Longrightarrow> reachable d'"
| taken: "reachable d \<Longrightarrow> Take count d = (taken_records, d') \<Longrightarrow> reachable d'"

definition ends_with_record_stop :: "RecordDescriptor \<Rightarrow> bool" where
  "ends_with_record_stop r = (m_tag (m_recordStop r) = RecordStop)"


subsection \<open>Concrete instances\<close>

text \<open>
  Three records told apart by their record index, for the concrete instances below.
\<close>

definition record_numbered :: "32 word \<Rightarrow> RecordDescriptor" where
  "record_numbered n =
     SetTriggerMarker (TriggerMarker_default\<lparr>tag := TriggerNormal, recordIndex := n\<rparr>)
       RecordDescriptor_default"

definition decoder_holding :: "Mode \<Rightarrow> RecordDescriptor list \<Rightarrow> MarkerStreamDecoder" where
  "decoder_holding mode q = (MarkerStreamDecoder_ctor mode)\<lparr>m_recordQueue := q\<rparr>"


text \<open>
  A stream over a whole buffer, as \<^verbatim>\<open>ArraySegment(data, 0, data.size())\<close> builds it, and
  the sixteen elements of a trigger marker whose last thirteen elements are zero.
\<close>

definition stream_of :: "32 word list \<Rightarrow> MarkerStream" where
  "stream_of data = \<lparr>m_data = data, m_offset = 0, m_size = length data\<rparr>"

definition trigger_elements :: "32 word \<Rightarrow> 32 word \<Rightarrow> 32 word \<Rightarrow> 32 word list" where
  "trigger_elements e0 e1 e2 = [e0, e1, e2, 0, 0, 0, 0, 0, 0, 0, 0, 0, 0, 0, 0, 0]"

text \<open>Decoders in a given mode and state, with an empty queue.\<close>

definition decoder_in :: "Mode \<Rightarrow> State \<Rightarrow> MarkerStreamDecoder" where
  "decoder_in mode st = (MarkerStreamDecoder_ctor mode)\<lparr>m_state := st\<rparr>"

text \<open>The decoder left by one call in normal mode on the trigger marker of record 5.\<close>

definition decoder_after_trigger_5 :: MarkerStreamDecoder where
  "decoder_after_trigger_5 =
     fst (snd (DecodeNextMarker (MarkerStreamDecoder_ctor Normal)
                 (stream_of (trigger_elements 0x00000501 0 0))))"

text \<open>
  A zero-suppress stream: the trigger marker of record 1, a gate over the blocks 2 to 5,
  a gate from block 6 to the record stop at block 10, one dummy marker and the trigger
  marker of record 2; and the record that the first five markers describe.
\<close>

definition two_gate_elements :: "32 word list" where
  "two_gate_elements =
     trigger_elements 0x00000101 0 0
       @ [0x02000004, 0, 0x05000005, 0, 0x06000004, 0, 0x0A00000A, 0]
       @ [0x00000008, 0]
       @ trigger_elements 0x00000201 0 0"

definition two_gate_record :: RecordDescriptor where
  "two_gate_record =
     \<lparr>m_trigger = \<lparr>tag = TriggerNormal, triggerTimeSamples = 0, absoluteSampleIndex = 0,
                    recordIndex = 1\<rparr>,
      m_gateList =
        [\<lparr>m_startMarker = \<lparr>m_blockIndex = 2, m_startSampleIndex = 0\<rparr>,
          m_stopMarker = \<lparr>m_stopBlockIndex = 5, m_gateEndIndex = 0, m_tag = GateStopCst\<rparr>\<rparr>,
         \<lparr>m_startMarker = \<lparr>m_blockIndex = 6, m_startSampleIndex = 0\<rparr>,
          m_stopMarker = \<lparr>m_stopBlockIndex = 10, m_gateEndIndex = 0, m_tag = RecordStop\<rparr>\<rparr>],
      m_recordStop = \<lparr>m_stopBlockIndex = 10, m_gateEndIndex = 0, m_tag = RecordStop\<rparr>\<rparr>"

subsection \<open>Ranges of the machine integers\<close>

text \<open>
  Proof vocabulary, not part of the source. \<open>int32_range\<close> and \<open>int64_range\<close> are the
  values of \<^verbatim>\<open>int32_t\<close> and \<^verbatim>\<open>int64_t\<close>. \<open>block_index_range\<close> is what the marker
  constructors let through: \<^verbatim>\<open>ExtractPosition\<close> assembles 32 bits and the constructors
  reject a block index below 1; \<^verbatim>\<open>StopMarker()\<close> has block index 1.
  \<open>parameters_in_range\<close> says that the four integer fields of
  \<^verbatim>\<open>ProcessingParameters\<close> are \<^verbatim>\<open>int32_t\<close> values.
\<close>

definition int32_range :: "int \<Rightarrow> bool" where
  "int32_range x = (- (2 ^ 31) \<le> x \<and> x < 2 ^ 31)"

definition int64_range :: "int \<Rightarrow> bool" where
  "int64_range x = (- (2 ^ 63) \<le> x \<and> x < 2 ^ 63)"

definition block_index_range :: "int \<Rightarrow> bool" where
  "block_index_range b = (1 \<le> b \<and> b < 2 ^ 32)"






section \<open>Properties\<close>

subsection \<open>ArraySegment\<close>

lemma size_t_wrap_id: "n \<le> SIZE_MAX \<Longrightarrow> size_t_wrap n = n"
  by (simp add: size_t_wrap_def SIZE_MAX_def)

lemma size_t_wrap_add_left: "size_t_wrap (size_t_wrap a + b) = size_t_wrap (a + b)"
  by (simp add: size_t_wrap_def mod_add_left_eq)

lemma segment_ok_offset:
  "segment_ok s \<Longrightarrow> n \<le> Size s \<Longrightarrow> size_t_wrap (m_offset s + n) = m_offset s + n"
  by (rule size_t_wrap_id) (simp add: segment_ok_def Size_def)

lemma PopFront_None_offset:
  assumes "PopFront n s = (None, s')" and "segment_ok s"
  shows "m_offset s' = m_offset s + n \<and> m_size s' = m_size s - n \<and> m_data s' = m_data s \<and>
         n \<le> m_size s"
proof -
  from assms(1) have n: "n \<le> Size s"
    by (auto simp: PopFront_def split: if_splits)
  with assms(1) segment_ok_offset [OF assms(2) n] show ?thesis
    by (auto simp: PopFront_def Size_def split: if_splits)
qed

lemma PopFront_None_window:
  "PopFront n s = (None, s') \<Longrightarrow> segment_ok s \<Longrightarrow> window s' = drop n (window s)"
  using PopFront_None_offset [of n s s']
  by (simp add: window_def drop_take add.commute)

lemma PopFront_None_segment_ok:
  "PopFront n s = (None, s') \<Longrightarrow> segment_ok s \<Longrightarrow> segment_ok s'"
  using PopFront_None_offset [of n s s']
  by (simp add: segment_ok_def)

lemma subscript_window:
  assumes "segment_ok s" and "i < Size s"
  shows "subscript s i = Inr (window s ! i)"
proof -
  from assms have "size_t_wrap (m_offset s + i) = m_offset s + i"
    by (simp add: segment_ok_offset)
  with assms show ?thesis
    by (simp add: segment_ok_def Size_def subscript_def window_def)
qed

lemma length_window: "segment_ok s \<Longrightarrow> length (window s) = Size s"
  by (auto simp: segment_ok_def Size_def window_def)

lemma ArraySegment_ctor_segment_ok:
  "ArraySegment_ctor data offset count = Inr s \<Longrightarrow>
   length data \<le> SIZE_MAX \<Longrightarrow> offset + count \<le> SIZE_MAX \<Longrightarrow> segment_ok s"
  by (auto simp: ArraySegment_ctor_def segment_ok_def size_t_wrap_id split: if_splits)

text \<open>
  Claim C5. \<^verbatim>\<open>PopFront(n)\<close> on a segment of size \<open>S\<close> throws exactly when \<open>n > S\<close>, and
  then leaves the segment as it was. Otherwise the new size is \<open>S - n\<close>, the offset has
  advanced by \<open>n\<close> (as a \<^verbatim>\<open>size_t\<close>), a read at \<open>i < S - n\<close> of the new segment is the
  read at \<open>i + n\<close> of the old one (the element \<open>i + n\<close> of the old window when the
  segment lies inside its buffer), and the buffer is the same.
\<close>

theorem PopFront_spec:
  "(fst (PopFront n s) \<noteq> None \<longleftrightarrow> Size s < n) \<and>
   (Size s < n \<longrightarrow> PopFront n s = (Some invalid_argument, s)) \<and>
   (n \<le> Size s \<longrightarrow>
      fst (PopFront n s) = None \<and>
      Size (snd (PopFront n s)) = Size s - n \<and>
      m_offset (snd (PopFront n s)) = size_t_wrap (m_offset s + n) \<and>
      (\<forall>i. i < Size s - n \<longrightarrow> subscript (snd (PopFront n s)) i = subscript s (i + n)) \<and>
      (segment_ok s \<longrightarrow>
         segment_ok (snd (PopFront n s)) \<and>
         m_offset (snd (PopFront n s)) = m_offset s + n \<and>
         window (snd (PopFront n s)) = drop n (window s) \<and>
         (\<forall>i. i < Size s - n \<longrightarrow> subscript (snd (PopFront n s)) i = Inr (window s ! (i + n)))) \<and>
      m_data (snd (PopFront n s)) = m_data s)"
proof -
  have fails: "(fst (PopFront n s) \<noteq> None \<longleftrightarrow> Size s < n) \<and>
               (Size s < n \<longrightarrow> PopFront n s = (Some invalid_argument, s))"
    by (simp add: PopFront_def)
  have pops: "n \<le> Size s \<longrightarrow>
      fst (PopFront n s) = None \<and>
      Size (snd (PopFront n s)) = Size s - n \<and>
      m_offset (snd (PopFront n s)) = size_t_wrap (m_offset s + n) \<and>
      (\<forall>i. i < Size s - n \<longrightarrow> subscript (snd (PopFront n s)) i = subscript s (i + n)) \<and>
      (segment_ok s \<longrightarrow>
         segment_ok (snd (PopFront n s)) \<and>
         m_offset (snd (PopFront n s)) = m_offset s + n \<and>
         window (snd (PopFront n s)) = drop n (window s) \<and>
         (\<forall>i. i < Size s - n \<longrightarrow> subscript (snd (PopFront n s)) i = Inr (window s ! (i + n)))) \<and>
      m_data (snd (PopFront n s)) = m_data s"
  proof
    assume n: "n \<le> Size s"
    define s' where "s' = snd (PopFront n s)"
    from n have p: "PopFront n s = (None, s')"
      by (simp add: s'_def PopFront_def)
    from n have f: "m_offset s' = size_t_wrap (m_offset s + n)" "Size s' = Size s - n"
      "m_data s' = m_data s"
      by (simp_all add: s'_def PopFront_def Size_def)
    have shift: "\<forall>i. i < Size s - n \<longrightarrow> subscript s' i = subscript s (i + n)"
      using f size_t_wrap_add_left [of "m_offset s + n"]
      by (simp add: subscript_def ac_simps)
    have ok: "segment_ok s \<longrightarrow>
         segment_ok s' \<and> m_offset s' = m_offset s + n \<and> window s' = drop n (window s) \<and>
         (\<forall>i. i < Size s - n \<longrightarrow> subscript s' i = Inr (window s ! (i + n)))"
    proof
      assume o: "segment_ok s"
      have "\<forall>i. i < Size s - n \<longrightarrow> subscript s' i = Inr (window s ! (i + n))"
      proof (intro allI impI)
        fix i
        assume "i < Size s - n"
        then have "i + n < Size s" by simp
        from subscript_window [OF o this] shift \<open>i < Size s - n\<close>
        show "subscript s' i = Inr (window s ! (i + n))" by simp
      qed
      with PopFront_None_segment_ok [OF p o] PopFront_None_window [OF p o]
        PopFront_None_offset [OF p o]
      show "segment_ok s' \<and> m_offset s' = m_offset s + n \<and> window s' = drop n (window s) \<and>
         (\<forall>i. i < Size s - n \<longrightarrow> subscript s' i = Inr (window s ! (i + n)))"
        by simp
    qed
    from p f shift ok
    show "fst (PopFront n s) = None \<and>
      Size (snd (PopFront n s)) = Size s - n \<and>
      m_offset (snd (PopFront n s)) = size_t_wrap (m_offset s + n) \<and>
      (\<forall>i. i < Size s - n \<longrightarrow> subscript (snd (PopFront n s)) i = subscript s (i + n)) \<and>
      (segment_ok s \<longrightarrow>
         segment_ok (snd (PopFront n s)) \<and>
         m_offset (snd (PopFront n s)) = m_offset s + n \<and>
         window (snd (PopFront n s)) = drop n (window s) \<and>
         (\<forall>i. i < Size s - n \<longrightarrow> subscript (snd (PopFront n s)) i = Inr (window s ! (i + n)))) \<and>
      m_data (snd (PopFront n s)) = m_data s"
      unfolding s'_def [symmetric] by simp
  qed
  from fails have "fst (PopFront n s) \<noteq> None \<longleftrightarrow> Size s < n"
    and "Size s < n \<longrightarrow> PopFront n s = (Some invalid_argument, s)"
    by (rule conjunct1, rule conjunct2)
  with pops show ?thesis
    by (intro conjI)
qed

theorem PopFront_spec_witness:
  "PopFront 2 \<lparr>m_data = [10, 20, 30, 40 :: int], m_offset = 1, m_size = 3\<rparr>
     = (None, \<lparr>m_data = [10, 20, 30, 40], m_offset = 3, m_size = 1\<rparr>) \<and>
   subscript (snd (PopFront 2 \<lparr>m_data = [10, 20, 30, 40 :: int], m_offset = 1, m_size = 3\<rparr>)) 0 = Inr 40 \<and>
   subscript \<lparr>m_data = [10, 20, 30, 40 :: int], m_offset = 1, m_size = 3\<rparr> 2 = Inr 40 \<and>
   PopFront 4 \<lparr>m_data = [10, 20, 30, 40 :: int], m_offset = 1, m_size = 3\<rparr>
     = (Some invalid_argument, \<lparr>m_data = [10, 20, 30, 40], m_offset = 1, m_size = 3\<rparr>)"
  using PopFront_spec [of 2 "\<lparr>m_data = [10, 20, 30, 40 :: int], m_offset = 1, m_size = 3\<rparr>"]
        PopFront_spec [of 4 "\<lparr>m_data = [10, 20, 30, 40 :: int], m_offset = 1, m_size = 3\<rparr>"]
  by (simp add: PopFront_def Size_def subscript_def size_t_wrap_def)

text \<open>
  Claim C8, as stated, fails: \<^verbatim>\<open>operator[]\<close> does not compare the index with
  \<^verbatim>\<open>m_size\<close>. On the segment of size 1 at offset 0 of the buffer \<open>[10, 20, 30]\<close>, the
  read at index 1, which is not below the size, returns the buffer element 20.
\<close>

theorem subscript_past_size_counterexample:
  "Size \<lparr>m_data = [10, 20, 30 :: int], m_offset = 0, m_size = 1\<rparr> = 1 \<and>
   segment_ok \<lparr>m_data = [10, 20, 30 :: int], m_offset = 0, m_size = 1\<rparr> \<and>
   subscript \<lparr>m_data = [10, 20, 30 :: int], m_offset = 0, m_size = 1\<rparr> 1 = Inr 20"
  by (simp add: Size_def subscript_def segment_ok_def size_t_wrap_def SIZE_MAX_def)

text \<open>
  Claim C8, amended. A read at index \<open>i\<close> does not look at the size of the segment:
  it returns the element of the buffer at the position \<open>m_offset + i\<close>, the sum taken
  as a \<^verbatim>\<open>size_t\<close> (modulo \<open>2 ^ 64\<close>), whenever that position lies inside the buffer,
  and is a read outside the buffer (no defined behaviour) otherwise. For a segment
  inside its buffer and \<open>i\<close> below its size, the read returns the element \<open>i\<close> of the
  window; at an index from the size on it returns the buffer element behind the
  window as long as the buffer has one.
\<close>

theorem subscript_spec:
  "(size_t_wrap (m_offset s + i) < length (m_data s) \<longrightarrow>
      subscript s i = Inr (m_data s ! size_t_wrap (m_offset s + i))) \<and>
   (length (m_data s) \<le> size_t_wrap (m_offset s + i) \<longrightarrow>
      subscript s i = Inl out_of_buffer_read) \<and>
   (segment_ok s \<and> i < Size s \<longrightarrow> subscript s i = Inr (window s ! i)) \<and>
   (segment_ok s \<and> Size s \<le> i \<and> m_offset s + i < length (m_data s) \<longrightarrow>
      subscript s i = Inr (m_data s ! (m_offset s + i)))"
proof -
  have inside: "segment_ok s \<and> i < Size s \<longrightarrow> subscript s i = Inr (window s ! i)"
    by (simp add: subscript_window)
  have behind: "segment_ok s \<and> Size s \<le> i \<and> m_offset s + i < length (m_data s) \<longrightarrow>
      subscript s i = Inr (m_data s ! (m_offset s + i))"
  proof
    assume a: "segment_ok s \<and> Size s \<le> i \<and> m_offset s + i < length (m_data s)"
    then have "m_offset s + i \<le> SIZE_MAX"
      by (simp add: segment_ok_def)
    then have "size_t_wrap (m_offset s + i) = m_offset s + i"
      by (rule size_t_wrap_id)
    with a show "subscript s i = Inr (m_data s ! (m_offset s + i))"
      by (simp add: subscript_def)
  qed
  from inside behind show ?thesis
    by (simp add: subscript_def)
qed

theorem subscript_spec_witness:
  "subscript \<lparr>m_data = [10, 20, 30 :: int], m_offset = 1, m_size = 2\<rparr> 1 = Inr 30 \<and>
   window \<lparr>m_data = [10, 20, 30 :: int], m_offset = 1, m_size = 2\<rparr> ! 1 = 30 \<and>
   subscript \<lparr>m_data = [10, 20, 30 :: int], m_offset = 1, m_size = 2\<rparr> 2 = Inl out_of_buffer_read \<and>
   subscript \<lparr>m_data = [10, 20, 30 :: int], m_offset = 1, m_size = 2\<rparr> SIZE_MAX = Inr 10 \<and>
   subscript \<lparr>m_data = [10, 20, 30 :: int], m_offset = 0, m_size = 2\<rparr> 2 = Inr 30"
  using subscript_spec [of "\<lparr>m_data = [10, 20, 30 :: int], m_offset = 1, m_size = 2\<rparr>" 1]
        subscript_spec [of "\<lparr>m_data = [10, 20, 30 :: int], m_offset = 1, m_size = 2\<rparr>" 2]
        subscript_spec [of "\<lparr>m_data = [10, 20, 30 :: int], m_offset = 1, m_size = 2\<rparr>" SIZE_MAX]
        subscript_spec [of "\<lparr>m_data = [10, 20, 30 :: int], m_offset = 0, m_size = 2\<rparr>" 2]
  by (simp add: segment_ok_def Size_def window_def size_t_wrap_def SIZE_MAX_def)

subsection \<open>Bit fields of the marker elements\<close>

lemma mask24_32: "(0xffffff :: 32 word) = mask 24" by (simp add: mask_eq_exp_minus_1)
lemma mask24_64: "(0xffffff :: 64 word) = mask 24" by (simp add: mask_eq_exp_minus_1)
lemma mask8_32: "(0xff :: 32 word) = mask 8" by (simp add: mask_eq_exp_minus_1)

lemma drop8_and_mask24: "drop_bit 8 (x :: 32 word) AND 0xffffff = drop_bit 8 x"
  unfolding mask24_32 by (rule bit_word_eqI) (auto simp: bit_simps dest: bit_imp_le_length)

lemma unat_drop8: "unat (drop_bit 8 (x :: 32 word)) = unat x div 256"
  by (simp add: drop_bit_eq_div unat_div_distrib)

lemma unat_low_byte: "unat ((x :: 32 word) AND 0xff) = unat x mod 256"
  unfolding mask8_32 by (simp add: take_bit_eq_mask [symmetric] take_bit_eq_mod unat_mod_distrib)

lemma timestamp_low: "(ucast (drop_bit 8 (l :: 32 word)) :: 64 word) AND 0xffffff = ucast (drop_bit 8 l)"
  unfolding mask24_64 by (rule bit_word_eqI) (auto simp: bit_simps dest: bit_imp_le_length)

lemma unat_timestamp_low: "unat (ucast (drop_bit 8 (l :: 32 word)) :: 64 word) = unat l div 256"
proof -
  have "unat l < 2 ^ 32" using unsigned_less [of l] by simp
  then have "unat l div 256 < 2 ^ 64" by simp
  then show ?thesis
    unfolding unsigned_ucast_eq unat_drop8 by (simp add: take_bit_eq_mod)
qed

lemma unat_timestamp_high: "unat (push_bit 24 (ucast (h :: 32 word) :: 64 word)) = unat h * 2 ^ 24"
proof -
  have "unat h < 2 ^ 32" using unsigned_less [of h] by simp
  then have "unat h * 2 ^ 24 < 2 ^ 32 * 2 ^ 24" by simp
  then have "unat h * 2 ^ 24 < 2 ^ 64" by simp
  moreover have "unat h < 2 ^ 64" using \<open>unat h < 2 ^ 32\<close> by simp
  ultimately show ?thesis
    unfolding unsigned_push_bit_eq unsigned_ucast_eq by (simp add: take_bit_eq_mod push_bit_eq_mult)
qed

lemma timestamp_disjoint:
  "push_bit 24 (ucast (h :: 32 word) :: 64 word) AND ucast (drop_bit 8 (l :: 32 word)) = 0"
  by (rule bit_word_eqI) (auto simp: bit_simps dest: bit_imp_le_length)

lemma unat_timestamp:
  "unat (push_bit 24 (ucast (h :: 32 word) :: 64 word) OR ((ucast (drop_bit 8 (l :: 32 word)) :: 64 word) AND 0xffffff))
     = unat h * 2 ^ 24 + unat l div 256"
proof -
  let ?A = "push_bit 24 (ucast h :: 64 word)"
  let ?B = "ucast (drop_bit 8 l) :: 64 word"
  have "unat h < 2 ^ 32" using unsigned_less [of h] by simp
  moreover have "unat l < 2 ^ 32" using unsigned_less [of l] by simp
  ultimately have b: "unat ?A + unat ?B < 2 ^ 64"
    by (simp add: unat_timestamp_high unat_timestamp_low)
  have "?A OR ?B = ?A + ?B"
    by (rule disjunctive_add_eq_or [symmetric]) (rule timestamp_disjoint)
  moreover have "unat (?A + ?B) = unat ?A + unat ?B"
    using b by (simp add: unat_add_lem [THEN iffD1])
  ultimately show ?thesis
    by (simp add: timestamp_low unat_timestamp_high unat_timestamp_low)
qed

lemma ExtractPosition_bounds: "0 \<le> ExtractPosition a b \<and> ExtractPosition a b < 2 ^ 32"
proof -
  let ?low = "uint (signed_drop_bit 24 a AND 0xff)"
  let ?high = "push_bit 8 (uint (b AND 0xffffff)) :: int"
  have "uint (b AND 0xffffff) \<le> uint (0xffffff :: 32 word)"
    by (simp add: word_and_le1 [THEN word_le_def [THEN iffD1]] uint_and AND_upper2')
  then have "uint (b AND 0xffffff) < 2 ^ 24" by simp
  then have h: "?high < 2 ^ 32" "0 \<le> ?high"
    by (simp_all add: push_bit_eq_mult)
  have l: "?low < 2 ^ 32" "0 \<le> ?low"
    using uint_lt2p [of "signed_drop_bit 24 a AND 0xff"] by simp_all
  from h l OR_upper [of ?high 32 ?low] show ?thesis
    unfolding ExtractPosition_def Let_def by simp
qed

lemma GateStartMarker_ctor_range:
  assumes "GateStartMarker_ctor e0 e1 = Inr start"
  shows "block_index_range (m_blockIndex start)"
proof -
  from assms have "m_blockIndex start = ExtractPosition e0 e1" "1 \<le> ExtractPosition e0 e1"
    by (auto simp: GateStartMarker_ctor_def Let_def split: if_splits)
  with ExtractPosition_bounds [of e0 e1] show ?thesis
    by (simp add: block_index_range_def)
qed

lemma StopMarker_ctor_range:
  assumes "StopMarker_ctor e0 e1 = Inr stop"
  shows "block_index_range (m_stopBlockIndex stop)"
proof -
  from assms have "m_stopBlockIndex stop = ExtractPosition e0 e1" "1 \<le> ExtractPosition e0 e1"
    by (auto simp: StopMarker_ctor_def Let_def split: if_splits)
  with ExtractPosition_bounds [of e0 e1] show ?thesis
    by (simp add: block_index_range_def)
qed

lemma StopMarker_default_range: "block_index_range (m_stopBlockIndex StopMarker_default)"
  by (simp add: StopMarker_default_def block_index_range_def)

lemma GateMarker_ctor_order:
  "GateMarker_ctor start stop = Inr gate \<Longrightarrow>
   m_blockIndex (m_startMarker gate) \<le> m_stopBlockIndex (m_stopMarker gate)"
  by (auto simp: GateMarker_ctor_def split: if_splits)

subsection \<open>Record retrieval\<close>

lemma Pop_Cons:
  "m_recordQueue d = r # rest \<Longrightarrow> Pop d = (Inr r, d\<lparr>m_recordQueue := rest\<rparr>)"
  by (simp add: Pop_def)

lemma Take_loop_take_drop:
  "k \<le> length (m_recordQueue d) \<Longrightarrow>
   Take_loop k acc d =
     (Inr (acc @ take k (m_recordQueue d)), d\<lparr>m_recordQueue := drop k (m_recordQueue d)\<rparr>)"
proof (induction k arbitrary: acc d)
  case 0
  then show ?case by simp
next
  case (Suc k)
  then obtain r rest where q: "m_recordQueue d = r # rest"
    by (cases "m_recordQueue d") auto
  with Suc.prems have "k \<le> length (m_recordQueue (d\<lparr>m_recordQueue := rest\<rparr>))"
    by simp
  from Suc.IH [OF this, of "acc @ [r]"] q show ?case
    by (simp add: Pop_Cons)
qed

text \<open>
  Claim C6. \<^verbatim>\<open>Take(n)\<close> throws when \<open>n \<le> 0\<close> or when \<open>n\<close> exceeds the number of
  queued records, and the decoder is then as before. Otherwise it returns the first
  \<open>n\<close> records of the queue in queue order and leaves the remaining records queued
  in order. \<^verbatim>\<open>Pop\<close> throws on an empty queue; on a queue that is not empty it
  returns the front record and removes it, which is what \<^verbatim>\<open>Take(1)\<close> does.
\<close>

theorem Take_spec:
  "(count \<le> 0 \<or> int (GetAvailableRecordCount d) < count \<longrightarrow>
      Take count d = (Inl invalid_argument, d)) \<and>
   (0 < count \<and> count \<le> int (GetAvailableRecordCount d) \<longrightarrow>
      Take count d =
        (Inr (take (nat count) (m_recordQueue d)),
         d\<lparr>m_recordQueue := drop (nat count) (m_recordQueue d)\<rparr>)) \<and>
   (m_recordQueue d = [] \<longrightarrow> Pop d = (Inl logic_error, d)) \<and>
   (m_recordQueue d \<noteq> [] \<longrightarrow>
      Pop d = (Inr (hd (m_recordQueue d)), d\<lparr>m_recordQueue := tl (m_recordQueue d)\<rparr>) \<and>
      Take 1 d = (Inr [hd (m_recordQueue d)], d\<lparr>m_recordQueue := tl (m_recordQueue d)\<rparr>))"
proof (intro conjI impI)
  assume "count \<le> 0 \<or> int (GetAvailableRecordCount d) < count"
  then show "Take count d = (Inl invalid_argument, d)"
    by (auto simp: Take_def)
next
  assume a: "0 < count \<and> count \<le> int (GetAvailableRecordCount d)"
  then have n: "nat count \<le> length (m_recordQueue d)"
    unfolding GetAvailableRecordCount_def by linarith
  then have "\<not> length (m_recordQueue d) < nat count"
    by simp
  with Take_loop_take_drop [OF n, of "[]"] a
  show "Take count d =
        (Inr (take (nat count) (m_recordQueue d)),
         d\<lparr>m_recordQueue := drop (nat count) (m_recordQueue d)\<rparr>)"
    by (simp add: Take_def GetAvailableRecordCount_def)
next
  assume "m_recordQueue d = []"
  then show "Pop d = (Inl logic_error, d)"
    by (simp add: Pop_def)
next
  assume "m_recordQueue d \<noteq> []"
  then obtain r rest where q: "m_recordQueue d = r # rest"
    by (cases "m_recordQueue d") auto
  then show "Pop d = (Inr (hd (m_recordQueue d)), d\<lparr>m_recordQueue := tl (m_recordQueue d)\<rparr>)"
    by (simp add: Pop_Cons)
next
  assume "m_recordQueue d \<noteq> []"
  then obtain r rest where q: "m_recordQueue d = r # rest"
    by (cases "m_recordQueue d") auto
  then show "Take 1 d = (Inr [hd (m_recordQueue d)], d\<lparr>m_recordQueue := tl (m_recordQueue d)\<rparr>)"
    by (simp add: Take_def GetAvailableRecordCount_def Pop_Cons)
qed

theorem Take_spec_witness:
  "Take 2 (decoder_holding ZeroSuppress [record_numbered 1, record_numbered 2, record_numbered 3])
     = (Inr [record_numbered 1, record_numbered 2], decoder_holding ZeroSuppress [record_numbered 3]) \<and>
   Take 4 (decoder_holding ZeroSuppress [record_numbered 1, record_numbered 2, record_numbered 3])
     = (Inl invalid_argument,
        decoder_holding ZeroSuppress [record_numbered 1, record_numbered 2, record_numbered 3]) \<and>
   Take 0 (decoder_holding ZeroSuppress [record_numbered 1])
     = (Inl invalid_argument, decoder_holding ZeroSuppress [record_numbered 1]) \<and>
   Pop (decoder_holding ZeroSuppress []) = (Inl logic_error, decoder_holding ZeroSuppress []) \<and>
   Pop (decoder_holding ZeroSuppress [record_numbered 1, record_numbered 2])
     = (Inr (record_numbered 1), decoder_holding ZeroSuppress [record_numbered 2]) \<and>
   Take 1 (decoder_holding ZeroSuppress [record_numbered 1, record_numbered 2])
     = (Inr [record_numbered 1], decoder_holding ZeroSuppress [record_numbered 2])"
  using Take_spec [of 2 "decoder_holding ZeroSuppress [record_numbered 1, record_numbered 2, record_numbered 3]"]
        Take_spec [of 4 "decoder_holding ZeroSuppress [record_numbered 1, record_numbered 2, record_numbered 3]"]
        Take_spec [of 0 "decoder_holding ZeroSuppress [record_numbered 1]"]
        Take_spec [of 1 "decoder_holding ZeroSuppress []"]
        Take_spec [of 1 "decoder_holding ZeroSuppress [record_numbered 1, record_numbered 2]"]
  by (simp add: decoder_holding_def MarkerStreamDecoder_ctor_def GetAvailableRecordCount_def)

subsection \<open>Stored sample count\<close>








lemma stored_samples_bound:
  fixes a b c pp :: int
  assumes "0 \<le> a" "0 \<le> b" "a + b < 2 ^ 32" "c < 2 ^ 31"
  shows "a * c + min (b * c) pp \<le> 2 ^ 32 * 2 ^ 31 - 2 ^ 32"
proof -
  have "a * c + min (b * c) pp \<le> a * c + b * c" by simp
  also have "\<dots> = (a + b) * c" by (simp add: algebra_simps)
  also have "\<dots> \<le> (2 ^ 32 - 1) * (2 ^ 31 - 1)"
  proof (cases "0 \<le> c")
    case True
    have "(a + b) * c \<le> (2 ^ 32 - 1) * (2 ^ 31 - 1)"
      by (rule mult_mono) (use assms True in simp_all)
    then show ?thesis .
  next
    case False
    then have "(a + b) * c \<le> 0"
      using assms by (simp add: mult_nonneg_nonpos)
    then show ?thesis by simp
  qed
  also have "\<dots> \<le> 2 ^ 32 * 2 ^ 31 - 2 ^ 32" by simp
  finally show ?thesis .
qed

lemma block_product_int64:
  fixes a c :: int
  assumes "0 \<le> a" "a < 2 ^ 32" "- (2 ^ 31) \<le> c" "c < 2 ^ 31"
  shows "- (2 ^ 32 * 2 ^ 31) \<le> a * c \<and> a * c \<le> 2 ^ 32 * 2 ^ 31"
proof (cases "0 \<le> c")
  case True
  have "a * c \<le> 2 ^ 32 * 2 ^ 31"
    by (rule mult_mono) (use assms True in simp_all)
  moreover have "0 \<le> a * c"
    using assms True by simp
  ultimately show ?thesis by simp
next
  case False
  have "a * (- c) \<le> 2 ^ 32 * 2 ^ 31"
    by (rule mult_mono) (use assms False in simp_all)
  moreover have "a * c \<le> 0"
    using assms False by (simp add: mult_nonneg_nonpos)
  ultimately show ?thesis by simp
qed

text \<open>
  The arithmetic of \<^verbatim>\<open>GetStoredSampleCount\<close> stays inside \<^verbatim>\<open>int64_t\<close>: for block
  indices and parameters in range, the two products, their sum with the additional
  samples, and the sum \<^verbatim>\<open>value + (divider - 1)\<close> formed by \<^verbatim>\<open>CeilDiv\<close> are all values
  of \<^verbatim>\<open>int64_t\<close>, so the unbounded integers of the model compute what the source
  computes.
\<close>

lemma GetStoredSampleCount_within_int64:
  fixes s p r c g pp :: int
  assumes "1 \<le> s" "s \<le> p" "p \<le> r" "r < 2 ^ 32"
    and "int32_range c" "int32_range g" "int32_range pp" "0 < g"
  shows "int64_range ((p - s) * c) \<and> int64_range ((r - p) * c) \<and>
         int64_range ((p - s) * c + min ((r - p) * c) pp) \<and>
         int64_range ((p - s) * c + min ((r - p) * c) pp + (g - 1))"
proof -
  let ?a = "p - s" and ?b = "r - p"
  have c: "- (2 ^ 31) \<le> c" "c < 2 ^ 31" and g: "g < 2 ^ 31" and pp: "- (2 ^ 31) \<le> pp"
    using assms by (simp_all add: int32_range_def)
  have a: "0 \<le> ?a" "?a + 1 < 2 ^ 32" "?a < 2 ^ 32" and b: "0 \<le> ?b" "?b < 2 ^ 32"
    and ab: "0 \<le> ?a + ?b" "?a + ?b < 2 ^ 32"
    using assms by simp_all
  from block_product_int64 [OF a(1,3) c]
  have pa: "- (2 ^ 32 * 2 ^ 31) \<le> ?a * c" "?a * c \<le> 2 ^ 32 * 2 ^ 31" by simp_all
  have pa': "?a * c < 2 ^ 63"
  proof (cases "0 \<le> c")
    case True
    have "?a * c \<le> (2 ^ 32 - 1) * (2 ^ 31 - 1)"
      by (rule mult_mono) (use a c True in simp_all)
    then show ?thesis by simp
  next
    case False
    then have "?a * c \<le> 0" using a by (simp add: mult_nonneg_nonpos)
    then show ?thesis by simp
  qed
  from block_product_int64 [OF b c]
  have pb: "- (2 ^ 32 * 2 ^ 31) \<le> ?b * c" by simp
  have pb': "?b * c < 2 ^ 63"
  proof (cases "0 \<le> c")
    case True
    have "?b * c \<le> (2 ^ 32 - 1) * (2 ^ 31 - 1)"
      by (rule mult_mono) (use b c True in simp_all)
    then show ?thesis by simp
  next
    case False
    then have "?b * c \<le> 0" using b by (simp add: mult_nonneg_nonpos)
    then show ?thesis by simp
  qed
  let ?v = "?a * c + min (?b * c) pp"
  have up: "?v \<le> 2 ^ 32 * 2 ^ 31 - 2 ^ 32"
    by (rule stored_samples_bound) (use a b ab c in simp_all)
  from block_product_int64 [OF ab c]
  have "- (2 ^ 32 * 2 ^ 31) \<le> (?a + ?b) * c" by simp
  then have l1: "- (2 ^ 32 * 2 ^ 31) \<le> ?a * c + ?b * c"
    by (simp add: algebra_simps)
  have "?a * c \<ge> ?a * (- (2 ^ 31))"
    by (rule mult_left_mono) (use a c in simp_all)
  then have "?a * c + pp \<ge> (?a + 1) * (- (2 ^ 31))"
    using pp by (simp add: algebra_simps)
  moreover have "(?a + 1) * (- (2 ^ 31)) \<ge> 2 ^ 32 * (- (2 ^ 31) :: int)"
    by (rule mult_right_mono_neg) (use a in simp_all)
  ultimately have l2: "- (2 ^ 32 * 2 ^ 31) \<le> ?a * c + pp"
    by simp
  from l1 l2 have low: "- (2 ^ 32 * 2 ^ 31) \<le> ?v"
    by (simp add: min_def)
  from pa pa' pb pb' up low g assms(8) show ?thesis
    by (simp add: int64_range_def)
qed




subsection \<open>Trigger markers\<close>

lemma DecodeTriggerMarker_success:
  assumes "segment_ok stream" and "16 \<le> Size stream"
    and "IsTriggerMarkerTag (ExtractTag (window stream ! 0))"
  shows "DecodeTriggerMarker stream =
           (Inr \<lparr>tag = ExtractTag (window stream ! 0),
                 triggerTimeSamples = - (real (unat (window stream ! 1 AND 0xff)) / 256),
                 absoluteSampleIndex =
                   push_bit 24 (ucast (window stream ! 2) :: 64 word)
                     OR ((ucast (drop_bit 8 (window stream ! 1)) :: 64 word) AND 0xffffff),
                 recordIndex = drop_bit 8 (window stream ! 0) AND RecordIndexMask\<rparr>,
            snd (PopFront 16 stream))"
proof -
  have "subscript stream 0 = Inr (window stream ! 0)"
    "subscript stream 1 = Inr (window stream ! 1)"
    "subscript stream 2 = Inr (window stream ! 2)"
    using assms by (simp_all add: subscript_window)
  moreover obtain stream' where "PopFront 16 stream = (None, stream')"
    using assms by (simp add: PopFront_def)
  ultimately show ?thesis
    using assms(3) by (simp add: DecodeTriggerMarker_def Let_def)
qed

lemma StandardStreaming_DecodeTriggerMarker_eq:
  "StandardStreaming_DecodeTriggerMarker stream = DecodeTriggerMarker stream"
  by (simp add: StandardStreaming_DecodeTriggerMarker_def DecodeTriggerMarker_def
                StandardStreaming_ExtractTag_def ExtractTag_def cong: sum.case_cong)

text \<open>
  Claim C4, as stated, fails in one word: the absolute sample index is not a 40-bit
  field. The decoder keeps all 32 bits of element 2 above the 24 bits taken from
  element 1. On the trigger marker with elements \<open>0x00000001, 0, 0x00010000\<close> the
  absolute sample index is \<open>2 ^ 40\<close>, which 40 bits cannot hold.
\<close>

theorem absoluteSampleIndex_40_bit_counterexample:
  "DecodeTriggerMarker (stream_of (trigger_elements 0x00000001 0 0x00010000))
     = (Inr \<lparr>tag = TriggerNormal, triggerTimeSamples = 0,
             absoluteSampleIndex = 0x10000000000, recordIndex = 0\<rparr>,
        \<lparr>m_data = trigger_elements 0x00000001 0 0x00010000, m_offset = 16, m_size = 0\<rparr>) \<and>
   \<not> (0x10000000000 :: 64 word) < 2 ^ 40"
  by (simp add: DecodeTriggerMarker_def stream_of_def trigger_elements_def subscript_def size_t_wrap_def
                ExtractTag_def IsTriggerMarkerTag_def RecordIndexMask_def PopFront_def Size_def)

text \<open>
  Claim C4, amended. On a stream that holds at least 16 elements and whose first
  element carries a trigger tag, both \<^verbatim>\<open>DecodeTriggerMarker\<close> functions consume exactly
  16 elements and return the same marker: its record index is bits 8 to 31 of
  element 0 (24 bits, masked with \<open>0x00ffffff\<close>); its trigger time is the low byte of
  element 1, negated and divided by 256; its absolute sample index is bits 8 to 31 of
  element 1 combined by \<open>OR\<close> with element 2 shifted left by 24 bits, that is
  \<open>element 2 * 2 ^ 24 + element 1 div 2 ^ 8\<close>, a field of up to 56 bits, and of
  40 bits when element 2 is below \<open>2 ^ 16\<close>.
\<close>

theorem DecodeTriggerMarker_spec:
  assumes "segment_ok stream" and "16 \<le> Size stream"
    and "IsTriggerMarkerTag (ExtractTag (window stream ! 0))"
  shows "\<exists>t stream'.
           DecodeTriggerMarker stream = (Inr t, stream') \<and>
           StandardStreaming_DecodeTriggerMarker stream = (Inr t, stream') \<and>
           Size stream' = Size stream - 16 \<and>
           window stream' = drop 16 (window stream) \<and>
           m_data stream' = m_data stream \<and>
           tag t = ExtractTag (window stream ! 0) \<and>
           recordIndex t = drop_bit 8 (window stream ! 0) AND 0x00ffffff \<and>
           unat (recordIndex t) = unat (window stream ! 0) div 2 ^ 8 \<and>
           unat (recordIndex t) < 2 ^ 24 \<and>
           triggerTimeSamples t = - (real (unat (window stream ! 1) mod 256) / 256) \<and>
           absoluteSampleIndex t =
             push_bit 24 (ucast (window stream ! 2)) OR ucast (drop_bit 8 (window stream ! 1)) \<and>
           unat (absoluteSampleIndex t) =
             unat (window stream ! 2) * 2 ^ 24 + unat (window stream ! 1) div 2 ^ 8 \<and>
           unat (absoluteSampleIndex t) < 2 ^ 56 \<and>
           (unat (window stream ! 2) < 2 ^ 16 \<longrightarrow> unat (absoluteSampleIndex t) < 2 ^ 40)"
proof -
  let ?e0 = "window stream ! 0" and ?e1 = "window stream ! 1" and ?e2 = "window stream ! 2"
  define t where "t = \<lparr>tag = ExtractTag ?e0,
                 triggerTimeSamples = - (real (unat (?e1 AND 0xff)) / 256),
                 absoluteSampleIndex =
                   push_bit 24 (ucast ?e2 :: 64 word)
                     OR ((ucast (drop_bit 8 ?e1) :: 64 word) AND 0xffffff),
                 recordIndex = drop_bit 8 ?e0 AND RecordIndexMask\<rparr>"
  define stream' where "stream' = snd (PopFront 16 stream)"
  have dec: "DecodeTriggerMarker stream = (Inr t, stream')"
    unfolding t_def stream'_def by (rule DecodeTriggerMarker_success) (rule assms)+
  have pop: "PopFront 16 stream = (None, stream')"
    using assms(2) by (simp add: stream'_def PopFront_def)
  have b0: "unat ?e0 < 2 ^ 32" using unsigned_less [of ?e0] by simp
  have b1: "unat ?e1 < 2 ^ 32" using unsigned_less [of ?e1] by simp
  have b2: "unat ?e2 < 2 ^ 32" using unsigned_less [of ?e2] by simp
  have u: "unat (absoluteSampleIndex t) = unat ?e2 * 2 ^ 24 + unat ?e1 div 2 ^ 8"
    by (simp add: t_def unat_timestamp)
  have u56: "unat ?e2 * 2 ^ 24 + unat ?e1 div 2 ^ 8 < 2 ^ 56"
    using b1 b2 by simp
  have u40: "unat ?e2 < 2 ^ 16 \<longrightarrow> unat ?e2 * 2 ^ 24 + unat ?e1 div 2 ^ 8 < 2 ^ 40"
  proof
    assume "unat ?e2 < 2 ^ 16"
    then have "unat ?e2 * 2 ^ 24 \<le> (2 ^ 16 - 1) * 2 ^ 24"
      by simp
    moreover have "unat ?e1 div 2 ^ 8 < 2 ^ 24"
      using b1 by simp
    ultimately show "unat ?e2 * 2 ^ 24 + unat ?e1 div 2 ^ 8 < 2 ^ 40"
      by simp
  qed
  have r: "unat (recordIndex t) = unat ?e0 div 2 ^ 8"
    by (simp add: t_def RecordIndexMask_def drop8_and_mask24 unat_drop8)
  have r24: "unat ?e0 div 2 ^ 8 < 2 ^ 24"
    using b0 by simp
  have a: "absoluteSampleIndex t = push_bit 24 (ucast ?e2) OR ucast (drop_bit 8 ?e1)"
    by (simp only: t_def TriggerMarker.simps timestamp_low)
  have ri: "recordIndex t = drop_bit 8 ?e0 AND 0x00ffffff"
    by (simp only: t_def TriggerMarker.simps RecordIndexMask_def)
  have tt: "triggerTimeSamples t = - (real (unat ?e1 mod 256) / 256)"
    by (simp only: t_def TriggerMarker.simps unat_low_byte)
  have tg: "tag t = ExtractTag ?e0"
    by (simp only: t_def TriggerMarker.simps)
  have sz: "Size stream' = Size stream - 16" and dt: "m_data stream' = m_data stream"
    using pop by (auto simp: PopFront_def Size_def split: if_splits)
  have wd: "window stream' = drop 16 (window stream)"
    using pop assms(1) by (rule PopFront_None_window)
  show ?thesis
    unfolding StandardStreaming_DecodeTriggerMarker_eq
    apply (rule exI [of _ t])
    apply (rule exI [of _ stream'])
    apply (intro conjI)
                 apply (rule dec)
                apply (rule dec)
               apply (rule sz)
              apply (rule wd)
             apply (rule dt)
            apply (rule tg)
           apply (rule ri)
          apply (rule r)
         apply (simp only: r r24)
        apply (rule tt)
       apply (rule a)
      apply (rule u)
     apply (simp only: u u56)
    apply (simp only: u)
    apply (rule u40)
    done
qed

theorem DecodeTriggerMarker_spec_witness:
  "DecodeTriggerMarker (stream_of (trigger_elements 0x00012302 0x00ABCD80 0x00000002))
     = (Inr \<lparr>tag = TriggerAverager, triggerTimeSamples = - (1 / 2),
             absoluteSampleIndex = 0x200ABCD, recordIndex = 0x123\<rparr>,
        \<lparr>m_data = trigger_elements 0x00012302 0x00ABCD80 0x00000002, m_offset = 16, m_size = 0\<rparr>) \<and>
   unat (0x00000002 :: 32 word) * 2 ^ 24 + unat (0x00ABCD80 :: 32 word) div 2 ^ 8 = 0x200ABCD"
proof -
  let ?s = "stream_of (trigger_elements 0x00012302 0x00ABCD80 0x00000002)"
  have w: "window ?s = trigger_elements 0x00012302 0x00ABCD80 0x00000002"
    by (simp add: window_def stream_of_def trigger_elements_def)
  have "segment_ok ?s" "16 \<le> Size ?s" "IsTriggerMarkerTag (ExtractTag (window ?s ! 0))"
    unfolding w
    by (simp_all add: segment_ok_def SIZE_MAX_def Size_def stream_of_def trigger_elements_def
                      IsTriggerMarkerTag_def ExtractTag_def)
  from DecodeTriggerMarker_spec [OF this]
  obtain t stream' where "DecodeTriggerMarker ?s = (Inr t, stream')"
    by blast
  then show ?thesis
    by (simp add: DecodeTriggerMarker_def stream_of_def trigger_elements_def subscript_def size_t_wrap_def
                  ExtractTag_def IsTriggerMarkerTag_def RecordIndexMask_def PopFront_def Size_def)
qed

subsection \<open>Decoding steps on the window of a stream\<close>

lemma PopFront_window:
  assumes "segment_ok s" and "n \<le> length (window s)"
  shows "\<exists>s'. PopFront n s = (None, s') \<and> segment_ok s' \<and> window s' = drop n (window s)"
proof -
  from assms have "n \<le> Size s" by (simp add: length_window)
  then obtain s' where p: "PopFront n s = (None, s')"
    by (simp add: PopFront_def)
  with assms(1) show ?thesis
    by (auto intro: PopFront_None_segment_ok PopFront_None_window)
qed

lemma subscript_first:
  "segment_ok s \<Longrightarrow> window s = x # xs \<Longrightarrow> subscript s 0 = Inr x"
  using subscript_window [of s 0] length_window [of s] by simp

lemma subscript_second:
  "segment_ok s \<Longrightarrow> window s = x # y # xs \<Longrightarrow> subscript s (Suc 0) = Inr y"
  using subscript_window [of s 1] length_window [of s] by simp

lemma Size_zero_window: "segment_ok s \<Longrightarrow> Size s = 0 \<longleftrightarrow> window s = []"
  using length_window [of s] by auto

lemma WalkthroughDummyMarker_window:
  assumes "segment_ok s" and "window s = e0 # e1 # rest" and "ExtractTag e0 = DummyGate"
  shows "\<exists>s'. WalkthroughDummyMarker s = (None, s') \<and> segment_ok s' \<and> window s' = rest"
proof -
  have "subscript s 0 = Inr e0"
    using assms by (simp add: subscript_first)
  moreover from PopFront_window [of s 2] assms
  obtain s' where "PopFront 2 s = (None, s')" "segment_ok s'" "window s' = rest"
    by auto
  ultimately show ?thesis
    using assms(3) by (simp add: WalkthroughDummyMarker_def)
qed

lemma DecodeGateStartMarker_window:
  assumes "segment_ok s" and "window s = e0 # e1 # rest"
    and "GateStartMarker_ctor e0 e1 = Inr start"
  shows "\<exists>s'. DecodeGateStartMarker s = (Inr start, s') \<and> segment_ok s' \<and> window s' = rest"
proof -
  have "subscript s 0 = Inr e0" "subscript s 1 = Inr e1"
    using assms by (simp_all add: subscript_first subscript_second)
  moreover from PopFront_window [of s 2] assms
  obtain s' where "PopFront 2 s = (None, s')" "segment_ok s'" "window s' = rest"
    by auto
  ultimately show ?thesis
    using assms(3) by (simp add: DecodeGateStartMarker_def)
qed

lemma DecodeStopMarker_window:
  assumes "segment_ok s" and "window s = e0 # e1 # rest"
    and "StopMarker_ctor e0 e1 = Inr stop"
  shows "\<exists>s'. DecodeStopMarker s = (Inr stop, s') \<and> segment_ok s' \<and> window s' = rest"
proof -
  have "subscript s 0 = Inr e0" "subscript s 1 = Inr e1"
    using assms by (simp_all add: subscript_first subscript_second)
  moreover from PopFront_window [of s 2] assms
  obtain s' where "PopFront 2 s = (None, s')" "segment_ok s'" "window s' = rest"
    by auto
  ultimately show ?thesis
    using assms(3) by (simp add: DecodeStopMarker_def)
qed

lemma DecodeGateMarker_window:
  assumes "segment_ok s" and "window s = a0 # a1 # b0 # b1 # rest"
    and "GateStartMarker_ctor a0 a1 = Inr start"
    and "StopMarker_ctor b0 b1 = Inr stop"
    and "GateMarker_ctor start stop = Inr gate"
  shows "\<exists>s'. DecodeGateMarker s = (Inr gate, s') \<and> segment_ok s' \<and> window s' = rest"
proof -
  from DecodeGateStartMarker_window [OF assms(1,2,3)]
  obtain s1 where 1: "DecodeGateStartMarker s = (Inr start, s1)" "segment_ok s1"
    "window s1 = b0 # b1 # rest"
    by blast
  from DecodeStopMarker_window [OF 1(2,3) assms(4)]
  obtain s2 where 2: "DecodeStopMarker s1 = (Inr stop, s2)" "segment_ok s2" "window s2 = rest"
    by blast
  from 1 2 assms(5) show ?thesis
    by (simp add: DecodeGateMarker_def)
qed

lemma DecodeTriggerMarker_window:
  assumes "segment_ok s" and "window s = m @ rest" and "length m = 16"
    and "DecodeTriggerMarker (stream_of m) = (Inr t, s0)"
  shows "\<exists>s'. DecodeTriggerMarker s = (Inr t, s') \<and> segment_ok s' \<and> window s' = rest"
proof -
  have ok: "segment_ok (stream_of m)" and w: "window (stream_of m) = m"
    and sz: "16 \<le> Size (stream_of m)"
    using assms(3) by (simp_all add: segment_ok_def SIZE_MAX_def stream_of_def window_def Size_def)
  have "subscript (stream_of m) 0 = Inr (m ! 0)"
    using subscript_window [OF ok, of 0] sz w by simp
  with assms(4) have tg: "IsTriggerMarkerTag (ExtractTag (m ! 0))"
    by (auto simp: DecodeTriggerMarker_def Let_def split: if_splits)
  have el: "window s ! 0 = m ! 0" "window s ! 1 = m ! 1" "window s ! 2 = m ! 2"
    using assms(2,3) by (simp_all add: nth_append)
  have sz': "16 \<le> Size s"
    using assms(1,2,3) length_window [of s] by simp
  have "IsTriggerMarkerTag (ExtractTag (window (stream_of m) ! 0))"
    using tg w by simp
  from DecodeTriggerMarker_success [OF ok sz this] assms(4) w
  have t: "t = \<lparr>tag = ExtractTag (m ! 0),
                 triggerTimeSamples = - (real (unat (m ! 1 AND 0xff)) / 256),
                 absoluteSampleIndex =
                   push_bit 24 (ucast (m ! 2) :: 64 word)
                     OR ((ucast (drop_bit 8 (m ! 1)) :: 64 word) AND 0xffffff),
                 recordIndex = drop_bit 8 (m ! 0) AND RecordIndexMask\<rparr>"
    by simp
  have "IsTriggerMarkerTag (ExtractTag (window s ! 0))"
    using tg el by simp
  from DecodeTriggerMarker_success [OF assms(1) sz' this]
  have d: "DecodeTriggerMarker s = (Inr t, snd (PopFront 16 s))"
    unfolding el t .
  from PopFront_window [of s 16] assms(1,2,3)
  obtain s' where "PopFront 16 s = (None, s')" "segment_ok s'" "window s' = rest"
    by auto
  with d show ?thesis by simp
qed

lemma walkthrough_all_dummies_window:
  assumes "segment_ok s" and "window s = concat ds @ rest"
    and "\<forall>m \<in> set ds. length m = 2 \<and> ExtractTag (m ! 0) = DummyGate"
    and "rest = [] \<or> ExtractTag (hd rest) \<noteq> DummyGate"
  shows "\<exists>s'. walkthrough_all_dummies s = (if rest = [] then Returned else Broke, s') \<and>
              segment_ok s' \<and> window s' = rest"
  using assms
proof (induction ds arbitrary: s)
  case Nil
  show ?case
  proof (cases rest)
    case Nil
    with Nil.prems have "Size s = 0"
      by (simp add: Size_zero_window)
    with Nil.prems \<open>rest = []\<close> show ?thesis
      by (subst walkthrough_all_dummies.simps) simp
  next
    case (Cons h tl)
    with Nil.prems have "Size s \<noteq> 0" "subscript s 0 = Inr h" "ExtractTag h \<noteq> DummyGate"
      by (simp_all add: Size_zero_window subscript_first)
    with Nil.prems Cons show ?thesis
      by (subst walkthrough_all_dummies.simps) simp
  qed
next
  case (Cons m ds)
  from Cons.prems(3) obtain e0 e1 where m: "m = [e0, e1]" and tg: "ExtractTag e0 = DummyGate"
    by (cases m; cases "tl m") auto
  with Cons.prems have w: "window s = e0 # e1 # (concat ds @ rest)"
    by simp
  from WalkthroughDummyMarker_window [OF Cons.prems(1) w tg]
  obtain s1 where 1: "WalkthroughDummyMarker s = (None, s1)" "segment_ok s1"
    "window s1 = concat ds @ rest"
    by blast
  from Cons.prems have "\<forall>m \<in> set ds. length m = 2 \<and> ExtractTag (m ! 0) = DummyGate"
    by simp
  from Cons.IH [OF 1(2,3) this Cons.prems(4)]
  obtain s' where 2: "walkthrough_all_dummies s1 = (if rest = [] then Returned else Broke, s')"
    "segment_ok s'" "window s' = rest"
    by blast
  have "Size s \<noteq> 0" "subscript s 0 = Inr e0"
    using Cons.prems(1) w by (simp_all add: Size_zero_window subscript_first)
  with tg 1 2 show ?case
    by (subst walkthrough_all_dummies.simps) simp
qed

lemma GateStartMarker_ctor_tag:
  "GateStartMarker_ctor e0 e1 = Inr start \<Longrightarrow> ExtractTag e0 = GateStartCst"
  by (auto simp: GateStartMarker_ctor_def Let_def split: if_splits)


subsection \<open>Markers with a wrong tag, and empty streams\<close>

lemma walkthrough_all_dummies_Returned:
  "walkthrough_all_dummies s = (Returned, s') \<Longrightarrow> Size s' = 0"
proof (induction s rule: walkthrough_all_dummies.induct)
  case (1 stream)
  show ?case
  proof (cases "Size stream = 0")
    case True
    with "1.prems" show ?thesis
      by (subst (asm) walkthrough_all_dummies.simps) simp
  next
    case False
    with "1.prems" obtain header s1 where h: "subscript stream 0 = Inr header"
      "ExtractTag header = DummyGate" "WalkthroughDummyMarker stream = (None, s1)"
      "walkthrough_all_dummies s1 = (Returned, s')"
      by (subst (asm) walkthrough_all_dummies.simps)
         (auto split: sum.splits if_splits prod.splits option.splits)
    with False "1.IH" [of header None s1] show ?thesis
      by simp
  qed
qed

lemma WalkthroughDummyMarker_None_PopFront:
  "WalkthroughDummyMarker s = (None, s') \<Longrightarrow> PopFront 2 s = (None, s')"
  by (auto simp: WalkthroughDummyMarker_def split: sum.splits if_splits)

lemma walkthrough_all_dummies_Returned_window:
  "walkthrough_all_dummies s = (Returned, s') \<Longrightarrow> segment_ok s \<Longrightarrow>
   \<exists>ds. window s = concat ds \<and>
        (\<forall>m \<in> set ds. length m = 2 \<and> ExtractTag (m ! 0) = DummyGate)"
proof (induction s rule: walkthrough_all_dummies.induct)
  case (1 stream)
  show ?case
  proof (cases "Size stream = 0")
    case True
    with "1.prems" have "window stream = concat []"
      by (simp add: Size_zero_window)
    then show ?thesis by fastforce
  next
    case False
    with "1.prems" obtain header s1 where h: "subscript stream 0 = Inr header"
      "ExtractTag header = DummyGate" "WalkthroughDummyMarker stream = (None, s1)"
      "walkthrough_all_dummies s1 = (Returned, s')"
      by (subst (asm) walkthrough_all_dummies.simps)
         (auto split: sum.splits if_splits prod.splits option.splits)
    from h(3) have p: "PopFront 2 stream = (None, s1)"
      by (rule WalkthroughDummyMarker_None_PopFront)
    from p "1.prems"(2) have ok1: "segment_ok s1"
      by (rule PopFront_None_segment_ok)
    from p "1.prems"(2) have w1: "window s1 = drop 2 (window stream)"
      by (rule PopFront_None_window)
    from p have "2 \<le> Size stream"
      by (auto simp: PopFront_def split: if_splits)
    then have len: "2 \<le> length (window stream)"
      using "1.prems"(2) by (simp add: length_window)
    from False h ok1 "1.IH" [of header None s1]
    obtain ds where ds: "window s1 = concat ds"
      "\<forall>m \<in> set ds. length m = 2 \<and> ExtractTag (m ! 0) = DummyGate"
      by auto
    from subscript_window [OF "1.prems"(2), of 0] False h(1)
    have "window stream ! 0 = header"
      by simp
    with len h(2) have m: "length (take 2 (window stream)) = 2"
      "ExtractTag (take 2 (window stream) ! 0) = DummyGate"
      by simp_all
    have "window stream = take 2 (window stream) @ drop 2 (window stream)"
      by simp
    with w1 ds(1) have "window stream = concat (take 2 (window stream) # ds)"
      by simp
    with m ds(2) show ?thesis
      by (intro exI [of _ "take 2 (window stream) # ds"]) simp
  qed
qed

text \<open>
  Claim C7. A decode operation that finds a tag it does not accept throws and leaves
  the cursor of the stream on the offending marker. \<^verbatim>\<open>DecodeTriggerMarker\<close>,
  \<^verbatim>\<open>DecodeGateStartMarker\<close>, \<^verbatim>\<open>DecodeStopMarker\<close> and \<^verbatim>\<open>WalkthroughDummyMarker\<close>
  return the stream they were given. \<^verbatim>\<open>DecodeGateMarker\<close> returns the stream it was
  given on a start marker with a wrong tag; on a start marker it accepts followed by a
  stop marker with a wrong tag it stops with the cursor on that stop marker.
  \<^verbatim>\<open>DecodeNextMarker\<close> leaves the stream as it was in normal mode and, on a tag that
  opens neither a gate nor a record stop, in the state \<^verbatim>\<open>ExpectGate\<close>; in that state,
  on a gate start it accepts followed by a stop marker with a wrong tag, it stops with
  the cursor on that stop marker and the decoder as it was; in the states
  \<^verbatim>\<open>ExpectTrigger\<close> and \<^verbatim>\<open>ExpectAlign\<close> it stops behind the dummy markers it has
  skipped, with the cursor on the marker that is neither a dummy nor a trigger marker.
\<close>

theorem wrong_tag_keeps_cursor:
  "(subscript s 0 = Inr h \<and> \<not> IsTriggerMarkerTag (ExtractTag h) \<longrightarrow>
      DecodeTriggerMarker s = (Inl runtime_error, s) \<and>
      StandardStreaming_DecodeTriggerMarker s = (Inl runtime_error, s)) \<and>
   (subscript s 0 = Inr h \<and> subscript s 1 = Inr h1 \<and> ExtractTag h \<noteq> GateStartCst \<longrightarrow>
      DecodeGateStartMarker s = (Inl invalid_argument, s)) \<and>
   (subscript s 0 = Inr h \<and> subscript s 1 = Inr h1 \<and>
    ExtractTag h \<noteq> GateStopCst \<and> ExtractTag h \<noteq> RecordStop \<longrightarrow>
      DecodeStopMarker s = (Inl invalid_argument, s)) \<and>
   (subscript s 0 = Inr h \<and> ExtractTag h \<noteq> DummyGate \<longrightarrow>
      WalkthroughDummyMarker s = (Some logic_error, s)) \<and>
   (subscript s 0 = Inr h \<and> subscript s 1 = Inr h1 \<and> ExtractTag h \<noteq> GateStartCst \<longrightarrow>
      DecodeGateMarker s = (Inl invalid_argument, s)) \<and>
   (segment_ok s \<and> window s = a0 # a1 # h # h1 # rest \<and>
    GateStartMarker_ctor a0 a1 = Inr start \<and>
    ExtractTag h \<noteq> GateStopCst \<and> ExtractTag h \<noteq> RecordStop \<longrightarrow>
      (\<exists>s1. DecodeGateMarker s = (Inl invalid_argument, s1) \<and> window s1 = h # h1 # rest)) \<and>
   (Size s \<noteq> 0 \<and> subscript s 0 = Inr h \<and> m_mode d = Normal \<and>
    \<not> IsTriggerMarkerTag (ExtractTag h) \<longrightarrow>
      DecodeNextMarker d s = (Some runtime_error, d, s)) \<and>
   (Size s \<noteq> 0 \<and> subscript s 0 = Inr h \<and> m_mode d = ZeroSuppress \<and> m_state d = ExpectGate \<and>
    ExtractTag h \<noteq> GateStartCst \<and> ExtractTag h \<noteq> RecordStop \<longrightarrow>
      DecodeNextMarker d s = (Some runtime_error, d, s)) \<and>
   (segment_ok s \<and> window s = a0 # a1 # h # h1 # rest \<and>
    GateStartMarker_ctor a0 a1 = Inr start \<and>
    ExtractTag h \<noteq> GateStopCst \<and> ExtractTag h \<noteq> RecordStop \<and>
    m_mode d = ZeroSuppress \<and> m_state d = ExpectGate \<longrightarrow>
      (\<exists>s1. DecodeNextMarker d s = (Some invalid_argument, d, s1) \<and>
            window s1 = h # h1 # rest)) \<and>
   (segment_ok s \<and> window s = concat ds @ h # rest \<and>
    (\<forall>m \<in> set ds. length m = 2 \<and> ExtractTag (m ! 0) = DummyGate) \<and>
    m_mode d = ZeroSuppress \<and> m_state d \<noteq> ExpectGate \<and>
    ExtractTag h \<noteq> DummyGate \<and> \<not> IsTriggerMarkerTag (ExtractTag h) \<longrightarrow>
      (\<exists>s1. DecodeNextMarker d s
              = (Some runtime_error, d\<lparr>m_currentRecord := RecordDescriptor_default\<rparr>, s1) \<and>
            window s1 = h # rest))"
proof (intro conjI impI)
  assume "subscript s 0 = Inr h \<and> \<not> IsTriggerMarkerTag (ExtractTag h)"
  then show "DecodeTriggerMarker s = (Inl runtime_error, s)"
    by (simp add: DecodeTriggerMarker_def)
next
  assume "subscript s 0 = Inr h \<and> \<not> IsTriggerMarkerTag (ExtractTag h)"
  then show "StandardStreaming_DecodeTriggerMarker s = (Inl runtime_error, s)"
    by (simp add: StandardStreaming_DecodeTriggerMarker_eq DecodeTriggerMarker_def)
next
  assume "subscript s 0 = Inr h \<and> subscript s 1 = Inr h1 \<and> ExtractTag h \<noteq> GateStartCst"
  then show "DecodeGateStartMarker s = (Inl invalid_argument, s)"
    by (simp add: DecodeGateStartMarker_def GateStartMarker_ctor_def)
next
  assume "subscript s 0 = Inr h \<and> subscript s 1 = Inr h1 \<and>
    ExtractTag h \<noteq> GateStopCst \<and> ExtractTag h \<noteq> RecordStop"
  then show "DecodeStopMarker s = (Inl invalid_argument, s)"
    by (simp add: DecodeStopMarker_def StopMarker_ctor_def)
next
  assume "subscript s 0 = Inr h \<and> ExtractTag h \<noteq> DummyGate"
  then show "WalkthroughDummyMarker s = (Some logic_error, s)"
    by (simp add: WalkthroughDummyMarker_def)
next
  assume "subscript s 0 = Inr h \<and> subscript s 1 = Inr h1 \<and> ExtractTag h \<noteq> GateStartCst"
  then have "DecodeGateStartMarker s = (Inl invalid_argument, s)"
    by (simp add: DecodeGateStartMarker_def GateStartMarker_ctor_def)
  then show "DecodeGateMarker s = (Inl invalid_argument, s)"
    by (simp add: DecodeGateMarker_def)
next
  assume a: "segment_ok s \<and> window s = a0 # a1 # h # h1 # rest \<and>
    GateStartMarker_ctor a0 a1 = Inr start \<and>
    ExtractTag h \<noteq> GateStopCst \<and> ExtractTag h \<noteq> RecordStop"
  with DecodeGateStartMarker_window [of s a0 a1 "h # h1 # rest" start]
  obtain s1 where 1: "DecodeGateStartMarker s = (Inr start, s1)" "segment_ok s1"
    "window s1 = h # h1 # rest"
    by blast
  then have "subscript s1 0 = Inr h" "subscript s1 (Suc 0) = Inr h1"
    by (simp_all add: subscript_first subscript_second)
  with a have "DecodeStopMarker s1 = (Inl invalid_argument, s1)"
    by (simp add: DecodeStopMarker_def StopMarker_ctor_def)
  with 1 show "\<exists>s1. DecodeGateMarker s = (Inl invalid_argument, s1) \<and> window s1 = h # h1 # rest"
    by (simp add: DecodeGateMarker_def)
next
  assume "Size s \<noteq> 0 \<and> subscript s 0 = Inr h \<and> m_mode d = Normal \<and>
    \<not> IsTriggerMarkerTag (ExtractTag h)"
  then show "DecodeNextMarker d s = (Some runtime_error, d, s)"
    by (simp add: DecodeNextMarker_def DecodeNextMarkerNormalMode_def DecodeTriggerMarker_def)
next
  assume "Size s \<noteq> 0 \<and> subscript s 0 = Inr h \<and> m_mode d = ZeroSuppress \<and>
    m_state d = ExpectGate \<and> ExtractTag h \<noteq> GateStartCst \<and> ExtractTag h \<noteq> RecordStop"
  then show "DecodeNextMarker d s = (Some runtime_error, d, s)"
    by (simp add: DecodeNextMarker_def DecodeNextMarkerZeroSuppressMode_def)
next
  assume a: "segment_ok s \<and> window s = a0 # a1 # h # h1 # rest \<and>
    GateStartMarker_ctor a0 a1 = Inr start \<and>
    ExtractTag h \<noteq> GateStopCst \<and> ExtractTag h \<noteq> RecordStop \<and>
    m_mode d = ZeroSuppress \<and> m_state d = ExpectGate"
  with DecodeGateStartMarker_window [of s a0 a1 "h # h1 # rest" start]
  obtain s1 where 1: "DecodeGateStartMarker s = (Inr start, s1)" "segment_ok s1"
    "window s1 = h # h1 # rest"
    by blast
  then have "subscript s1 0 = Inr h" "subscript s1 (Suc 0) = Inr h1"
    by (simp_all add: subscript_first subscript_second)
  with a have "DecodeStopMarker s1 = (Inl invalid_argument, s1)"
    by (simp add: DecodeStopMarker_def StopMarker_ctor_def)
  with 1 have g: "DecodeGateMarker s = (Inl invalid_argument, s1)"
    by (simp add: DecodeGateMarker_def)
  from a have "Size s \<noteq> 0" "subscript s 0 = Inr a0"
    by (simp_all add: Size_zero_window subscript_first)
  moreover from a have "ExtractTag a0 = GateStartCst"
    by (auto dest: GateStartMarker_ctor_tag)
  ultimately show "\<exists>s1. DecodeNextMarker d s = (Some invalid_argument, d, s1) \<and>
            window s1 = h # h1 # rest"
    using a g 1(3)
    by (simp add: DecodeNextMarker_def DecodeNextMarkerZeroSuppressMode_def)
next
  assume a: "segment_ok s \<and> window s = concat ds @ h # rest \<and>
    (\<forall>m \<in> set ds. length m = 2 \<and> ExtractTag (m ! 0) = DummyGate) \<and>
    m_mode d = ZeroSuppress \<and> m_state d \<noteq> ExpectGate \<and>
    ExtractTag h \<noteq> DummyGate \<and> \<not> IsTriggerMarkerTag (ExtractTag h)"
  then have "Size s \<noteq> 0"
    by (simp add: Size_zero_window)
  moreover from a have st: "m_state d = ExpectTrigger \<or> m_state d = ExpectAlign"
    by (cases "m_state d") simp_all
  moreover from a walkthrough_all_dummies_window [of s ds "h # rest"]
  obtain s1 where 1: "walkthrough_all_dummies s = (Broke, s1)" "segment_ok s1"
    "window s1 = h # rest"
    by auto
  moreover from 1 have "subscript s1 0 = Inr h"
    by (simp add: subscript_first)
  with a have "DecodeTriggerMarker s1 = (Inl runtime_error, s1)"
    by (simp add: DecodeTriggerMarker_def)
  ultimately show "\<exists>s1. DecodeNextMarker d s
              = (Some runtime_error, d\<lparr>m_currentRecord := RecordDescriptor_default\<rparr>, s1) \<and>
            window s1 = h # rest"
    using a by (simp add: DecodeNextMarker_def DecodeNextMarkerZeroSuppressMode_def)
qed

theorem wrong_tag_keeps_cursor_witness:
  "DecodeTriggerMarker (stream_of [0, 0]) = (Inl runtime_error, stream_of [0, 0]) \<and>
   StandardStreaming_DecodeTriggerMarker (stream_of [0, 0]) = (Inl runtime_error, stream_of [0, 0]) \<and>
   DecodeGateStartMarker (stream_of [0, 0]) = (Inl invalid_argument, stream_of [0, 0]) \<and>
   DecodeStopMarker (stream_of [0, 0]) = (Inl invalid_argument, stream_of [0, 0]) \<and>
   WalkthroughDummyMarker (stream_of [0, 0]) = (Some logic_error, stream_of [0, 0]) \<and>
   DecodeGateMarker (stream_of [0, 0]) = (Inl invalid_argument, stream_of [0, 0]) \<and>
   DecodeNextMarker (decoder_in ZeroSuppress ExpectGate) (stream_of [0x01000004, 0, 0, 0])
     = (Some invalid_argument, decoder_in ZeroSuppress ExpectGate,
        \<lparr>m_data = [0x01000004, 0, 0, 0], m_offset = 2, m_size = 2\<rparr>) \<and>
   DecodeGateMarker (stream_of [0x01000004, 0, 0, 0])
     = (Inl invalid_argument, \<lparr>m_data = [0x01000004, 0, 0, 0], m_offset = 2, m_size = 2\<rparr>) \<and>
   DecodeNextMarker (decoder_in Normal ExpectTrigger) (stream_of [0, 0])
     = (Some runtime_error, decoder_in Normal ExpectTrigger, stream_of [0, 0]) \<and>
   DecodeNextMarker (decoder_in ZeroSuppress ExpectGate) (stream_of [0, 0])
     = (Some runtime_error, decoder_in ZeroSuppress ExpectGate, stream_of [0, 0]) \<and>
   DecodeNextMarker (decoder_in ZeroSuppress ExpectAlign) (stream_of [0x08, 0, 0x08, 0, 0, 0])
     = (Some runtime_error, decoder_in ZeroSuppress ExpectAlign,
        \<lparr>m_data = [0x08, 0, 0x08, 0, 0, 0], m_offset = 4, m_size = 2\<rparr>)"
  using wrong_tag_keeps_cursor
          [where s = "stream_of [0, 0]" and h = 0 and ?h1.0 = 0
             and d = "decoder_in Normal ExpectTrigger"]
        wrong_tag_keeps_cursor
          [where s = "stream_of [0, 0]" and h = 0 and ?h1.0 = 0
             and d = "decoder_in ZeroSuppress ExpectGate"]
        wrong_tag_keeps_cursor
          [where s = "stream_of [0x01000004, 0, 0, 0]" and h = 0 and ?h1.0 = 0
             and ?a0.0 = "0x01000004" and ?a1.0 = 0 and rest = "[]"
             and start = "\<lparr>m_blockIndex = 1, m_startSampleIndex = 0\<rparr>"
             and d = "decoder_in ZeroSuppress ExpectGate"]
        wrong_tag_keeps_cursor
          [where s = "stream_of [0x08, 0, 0x08, 0, 0, 0]" and h = 0 and rest = "[0]"
             and ds = "[ [0x08, 0], [0x08, 0] ]" and d = "decoder_in ZeroSuppress ExpectAlign"]
  by (simp add: stream_of_def decoder_in_def MarkerStreamDecoder_ctor_def
                DecodeNextMarker_def DecodeNextMarkerNormalMode_def
                DecodeNextMarkerZeroSuppressMode_def DecodeTriggerMarker_def
                StandardStreaming_DecodeTriggerMarker_eq DecodeGateStartMarker_def
                DecodeStopMarker_def DecodeGateMarker_def WalkthroughDummyMarker_def
                GateStartMarker_ctor_def StopMarker_ctor_def ExtractPosition_def
                subscript_def size_t_wrap_def PopFront_def Size_def ExtractTag_def IsTriggerMarkerTag_def
                RecordDescriptor_default_def segment_ok_def SIZE_MAX_def window_def
                walkthrough_all_dummies.simps)

lemma DecodeNextMarkerNormalMode_progress:
  "DecodeNextMarkerNormalMode d s = (None, d', s') \<Longrightarrow>
   length (m_recordQueue d') = Suc (length (m_recordQueue d))"
  by (auto simp: DecodeNextMarkerNormalMode_def Let_def split: prod.splits sum.splits)

lemma ExpectGate_progress:
  "DecodeNextMarkerZeroSuppressMode d s = (None, d', s') \<Longrightarrow> m_state d = ExpectGate \<Longrightarrow>
   m_state d' = ExpectAlign \<or>
   length (m_gateList (m_currentRecord d')) = Suc (length (m_gateList (m_currentRecord d)))"
  by (auto simp: DecodeNextMarkerZeroSuppressMode_def Let_def complete_record_def
                 SetRecordStopMarker_def AddGate_def
           split: prod.splits sum.splits if_splits)

lemma ExpectTrigger_progress:
  "DecodeNextMarkerZeroSuppressMode d s = (None, d', s') \<Longrightarrow> m_state d \<noteq> ExpectGate \<Longrightarrow>
   (d' = d \<and> walkthrough_all_dummies s = (Returned, s')) \<or> m_state d' = ExpectGate"
  by (cases "m_state d")
     (auto simp: DecodeNextMarkerZeroSuppressMode_def Let_def
           split: prod.splits sum.splits loop_exit.splits)

text \<open>
  Claim C9. On a stream of size 0, \<^verbatim>\<open>DecodeNextMarker\<close> throws in either mode and in
  every state, and leaves the decoder (state, record in progress, queue) and the
  stream as they were. A stream runs empty without an exception when a call in the
  state \<^verbatim>\<open>ExpectTrigger\<close> or \<^verbatim>\<open>ExpectAlign\<close> of the zero-suppress mode finds dummy
  markers only: the call returns with the decoder unchanged and the stream empty, and
  the next call on that stream throws. That is the only such case: a call that
  returns without an exception and leaves the decoder as it was is a call in one of
  these two states that has emptied a stream that was not empty, and that stream
  consisted of dummy markers, two elements each, and nothing else.
\<close>

theorem DecodeNextMarker_empty_stream:
  "(Size s = 0 \<longrightarrow> DecodeNextMarker d s = (Some runtime_error, d, s)) \<and>
   (m_mode d = ZeroSuppress \<and> m_state d \<noteq> ExpectGate \<and> segment_ok s \<and>
    ds \<noteq> [] \<and> window s = concat ds \<and>
    (\<forall>m \<in> set ds. length m = 2 \<and> ExtractTag (m ! 0) = DummyGate) \<longrightarrow>
      (\<exists>s1. DecodeNextMarker d s = (None, d, s1) \<and> Size s1 = 0 \<and>
            DecodeNextMarker d s1 = (Some runtime_error, d, s1))) \<and>
   (DecodeNextMarker d s = (None, d, s') \<longrightarrow>
      Size s \<noteq> 0 \<and> Size s' = 0 \<and> m_mode d = ZeroSuppress \<and> m_state d \<noteq> ExpectGate) \<and>
   (segment_ok s \<and> DecodeNextMarker d s = (None, d, s') \<longrightarrow>
      (\<exists>ms. ms \<noteq> [] \<and> window s = concat ms \<and>
            (\<forall>m \<in> set ms. length m = 2 \<and> ExtractTag (m ! 0) = DummyGate)))"
proof -
  have empty: "Size s = 0 \<longrightarrow> DecodeNextMarker d s = (Some runtime_error, d, s)"
    by (simp add: DecodeNextMarker_def)
  have dummies: "m_mode d = ZeroSuppress \<and> m_state d \<noteq> ExpectGate \<and> segment_ok s \<and>
    ds \<noteq> [] \<and> window s = concat ds \<and>
    (\<forall>m \<in> set ds. length m = 2 \<and> ExtractTag (m ! 0) = DummyGate) \<longrightarrow>
      (\<exists>s1. DecodeNextMarker d s = (None, d, s1) \<and> Size s1 = 0 \<and>
            DecodeNextMarker d s1 = (Some runtime_error, d, s1))"
  proof
    assume a: "m_mode d = ZeroSuppress \<and> m_state d \<noteq> ExpectGate \<and> segment_ok s \<and>
      ds \<noteq> [] \<and> window s = concat ds \<and>
      (\<forall>m \<in> set ds. length m = 2 \<and> ExtractTag (m ! 0) = DummyGate)"
    then obtain m ms where "ds = m # ms" "length m = 2"
      by (cases ds) auto
    with a have "window s \<noteq> []"
      by auto
    with a have nz: "Size s \<noteq> 0"
      by (simp add: Size_zero_window)
    from a have st: "m_state d = ExpectTrigger \<or> m_state d = ExpectAlign"
      by (cases "m_state d") simp_all
    from a walkthrough_all_dummies_window [of s ds "[]"]
    obtain s1 where 1: "walkthrough_all_dummies s = (Returned, s1)" "segment_ok s1"
      "window s1 = []"
      by auto
    then have "Size s1 = 0"
      by (simp add: Size_zero_window)
    with 1 nz st a
    show "\<exists>s1. DecodeNextMarker d s = (None, d, s1) \<and> Size s1 = 0 \<and>
              DecodeNextMarker d s1 = (Some runtime_error, d, s1)"
      by (simp add: DecodeNextMarker_def DecodeNextMarkerZeroSuppressMode_def)
  qed
  have only: "DecodeNextMarker d s = (None, d, s') \<longrightarrow>
      Size s \<noteq> 0 \<and> Size s' = 0 \<and> m_mode d = ZeroSuppress \<and> m_state d \<noteq> ExpectGate"
  proof
    assume a: "DecodeNextMarker d s = (None, d, s')"
    then have nz: "Size s \<noteq> 0"
      by (auto simp: DecodeNextMarker_def split: if_splits)
    have zs: "m_mode d = ZeroSuppress"
    proof (rule ccontr)
      assume "m_mode d \<noteq> ZeroSuppress"
      then have "m_mode d = Normal" by (cases "m_mode d") simp_all
      with a nz have "DecodeNextMarkerNormalMode d s = (None, d, s')"
        by (simp add: DecodeNextMarker_def)
      from DecodeNextMarkerNormalMode_progress [OF this] show False by simp
    qed
    with a nz have z: "DecodeNextMarkerZeroSuppressMode d s = (None, d, s')"
      by (simp add: DecodeNextMarker_def)
    have ng: "m_state d \<noteq> ExpectGate"
    proof
      assume "m_state d = ExpectGate"
      with ExpectGate_progress [OF z] show False by simp
    qed
    with ExpectTrigger_progress [OF z] have "walkthrough_all_dummies s = (Returned, s')"
      by simp
    then have "Size s' = 0"
      by (rule walkthrough_all_dummies_Returned)
    with nz zs ng
    show "Size s \<noteq> 0 \<and> Size s' = 0 \<and> m_mode d = ZeroSuppress \<and> m_state d \<noteq> ExpectGate"
      by simp
  qed
  have only_dummies: "segment_ok s \<and> DecodeNextMarker d s = (None, d, s') \<longrightarrow>
      (\<exists>ms. ms \<noteq> [] \<and> window s = concat ms \<and>
            (\<forall>m \<in> set ms. length m = 2 \<and> ExtractTag (m ! 0) = DummyGate))"
  proof
    assume a: "segment_ok s \<and> DecodeNextMarker d s = (None, d, s')"
    then have ok: "segment_ok s" and dn: "DecodeNextMarker d s = (None, d, s')"
      by simp_all
    from dn only have nz: "Size s \<noteq> 0" and zs: "m_mode d = ZeroSuppress"
      and ng: "m_state d \<noteq> ExpectGate"
      by simp_all
    from dn nz zs have z: "DecodeNextMarkerZeroSuppressMode d s = (None, d, s')"
      by (simp add: DecodeNextMarker_def)
    with ExpectTrigger_progress [OF z] ng
    have "walkthrough_all_dummies s = (Returned, s')"
      by simp
    from walkthrough_all_dummies_Returned_window [OF this ok]
    obtain ms where ms: "window s = concat ms"
      "\<forall>m \<in> set ms. length m = 2 \<and> ExtractTag (m ! 0) = DummyGate"
      by blast
    from nz ok have "window s \<noteq> []"
      by (simp add: Size_zero_window)
    with ms(1) have "ms \<noteq> []"
      by auto
    with ms show "\<exists>ms. ms \<noteq> [] \<and> window s = concat ms \<and>
            (\<forall>m \<in> set ms. length m = 2 \<and> ExtractTag (m ! 0) = DummyGate)"
      by blast
  qed
  from empty dummies only only_dummies show ?thesis
    by (intro conjI)
qed

theorem DecodeNextMarker_empty_stream_witness:
  "DecodeNextMarker (decoder_in Normal ExpectTrigger) (stream_of [])
     = (Some runtime_error, decoder_in Normal ExpectTrigger, stream_of []) \<and>
   DecodeNextMarker (decoder_in ZeroSuppress ExpectAlign) (stream_of [])
     = (Some runtime_error, decoder_in ZeroSuppress ExpectAlign, stream_of []) \<and>
   DecodeNextMarker (decoder_in ZeroSuppress ExpectAlign) (stream_of [0x08, 0, 0x08, 0])
     = (None, decoder_in ZeroSuppress ExpectAlign,
        \<lparr>m_data = [0x08, 0, 0x08, 0], m_offset = 4, m_size = 0\<rparr>) \<and>
   DecodeNextMarker (decoder_in ZeroSuppress ExpectAlign)
       \<lparr>m_data = [0x08, 0, 0x08, 0], m_offset = 4, m_size = 0\<rparr>
     = (Some runtime_error, decoder_in ZeroSuppress ExpectAlign,
        \<lparr>m_data = [0x08, 0, 0x08, 0], m_offset = 4, m_size = 0\<rparr>)"
  using DecodeNextMarker_empty_stream
          [where s = "stream_of []" and d = "decoder_in Normal ExpectTrigger"]
        DecodeNextMarker_empty_stream
          [where s = "stream_of []" and d = "decoder_in ZeroSuppress ExpectAlign"]
        DecodeNextMarker_empty_stream
          [where s = "stream_of [0x08, 0, 0x08, 0]" and d = "decoder_in ZeroSuppress ExpectAlign"
             and ds = "[ [0x08, 0], [0x08, 0] ]"
             and s' = "\<lparr>m_data = [0x08, 0, 0x08, 0], m_offset = 4, m_size = 0\<rparr>"]
  by (simp add: stream_of_def decoder_in_def MarkerStreamDecoder_ctor_def
                DecodeNextMarker_def DecodeNextMarkerZeroSuppressMode_def
                WalkthroughDummyMarker_def subscript_def size_t_wrap_def PopFront_def Size_def ExtractTag_def
                segment_ok_def SIZE_MAX_def window_def walkthrough_all_dummies.simps)

subsection \<open>Normal mode\<close>

lemma stream_of_window:
  "window (stream_of m) = m \<and> Size (stream_of m) = length m \<and>
   (length m \<le> SIZE_MAX \<longrightarrow> segment_ok (stream_of m))"
  by (simp add: segment_ok_def stream_of_def window_def Size_def)

lemma trigger_marker_decodes:
  assumes "length m = 16" and "IsTriggerMarkerTag (ExtractTag (m ! 0))"
  shows "\<exists>t s0. DecodeTriggerMarker (stream_of m) = (Inr t, s0)"
proof -
  have "segment_ok (stream_of m)" "16 \<le> Size (stream_of m)"
    "IsTriggerMarkerTag (ExtractTag (window (stream_of m) ! 0))"
    using assms by (simp_all add: stream_of_window SIZE_MAX_def)
  from DecodeTriggerMarker_success [OF this] show ?thesis by blast
qed

lemma Normal_mode_step:
  assumes "m_mode d = Normal" and "segment_ok s" and "window s = m @ rest"
    and "length m = 16" and "IsTriggerMarkerTag (ExtractTag (m ! 0))"
  shows "\<exists>t s'. fst (DecodeTriggerMarker (stream_of m)) = Inr t \<and>
           DecodeNextMarker d s =
             (None,
              d\<lparr>m_recordQueue := m_recordQueue d
                   @ [\<lparr>m_trigger = t, m_gateList = [], m_recordStop = StopMarker_default\<rparr>]\<rparr>,
              s') \<and>
           segment_ok s' \<and> window s' = rest"
proof -
  from trigger_marker_decodes [OF assms(4,5)]
  obtain t s0 where t: "DecodeTriggerMarker (stream_of m) = (Inr t, s0)"
    by blast
  from DecodeTriggerMarker_window [OF assms(2,3,4) t]
  obtain s' where s': "DecodeTriggerMarker s = (Inr t, s')" "segment_ok s'" "window s' = rest"
    by blast
  have "Size s \<noteq> 0"
    using assms(2,3,4) by (auto simp: Size_zero_window)
  with assms(1) s' t show ?thesis
    by (simp add: DecodeNextMarker_def DecodeNextMarkerNormalMode_def SetTriggerMarker_def
                  RecordDescriptor_default_def)
qed

lemma Normal_mode_run:
  assumes "m_mode d = Normal" and "segment_ok s" and "window s = concat ms"
    and "\<forall>m \<in> set ms. length m = 16 \<and> IsTriggerMarkerTag (ExtractTag (m ! 0))"
  shows "\<exists>d' s' new.
           DecodeNextMarker_times (length ms) d s = (None, d', s') \<and> Size s' = 0 \<and>
           m_recordQueue d' = m_recordQueue d @ new \<and>
           list_all2 (\<lambda>m r. fst (DecodeTriggerMarker (stream_of m)) = Inr (m_trigger r) \<and>
                            m_gateList r = [] \<and> m_recordStop r = StopMarker_default) ms new"
  using assms
proof (induction ms arbitrary: d s)
  case Nil
  then show ?case
    by (simp add: Size_zero_window)
next
  case (Cons m ms)
  from Cons.prems have w: "window s = m @ concat ms" and m: "length m = 16"
    "IsTriggerMarkerTag (ExtractTag (m ! 0))"
    by simp_all
  from Normal_mode_step [OF Cons.prems(1,2) w m]
  obtain t s1 where 1: "fst (DecodeTriggerMarker (stream_of m)) = Inr t"
    "DecodeNextMarker d s =
       (None,
        d\<lparr>m_recordQueue := m_recordQueue d
             @ [\<lparr>m_trigger = t, m_gateList = [], m_recordStop = StopMarker_default\<rparr>]\<rparr>,
        s1)"
    "segment_ok s1" "window s1 = concat ms"
    by blast
  let ?r = "\<lparr>m_trigger = t, m_gateList = [], m_recordStop = StopMarker_default\<rparr>"
  let ?d1 = "d\<lparr>m_recordQueue := m_recordQueue d @ [?r]\<rparr>"
  have "m_mode ?d1 = Normal"
    using Cons.prems(1) by simp
  moreover have "\<forall>m \<in> set ms. length m = 16 \<and> IsTriggerMarkerTag (ExtractTag (m ! 0))"
    using Cons.prems(4) by simp
  ultimately obtain d' s' new where 2:
    "DecodeNextMarker_times (length ms) ?d1 s1 = (None, d', s')" "Size s' = 0"
    "m_recordQueue d' = m_recordQueue ?d1 @ new"
    "list_all2 (\<lambda>m r. fst (DecodeTriggerMarker (stream_of m)) = Inr (m_trigger r) \<and>
                      m_gateList r = [] \<and> m_recordStop r = StopMarker_default) ms new"
    using Cons.IH [OF _ 1(3,4)] by blast
  have "DecodeNextMarker_times (length (m # ms)) d s = (None, d', s')"
    using 1(2) 2(1) by simp
  moreover have "m_recordQueue d' = m_recordQueue d @ (?r # new)"
    using 2(3) by simp
  moreover have "list_all2 (\<lambda>m r. fst (DecodeTriggerMarker (stream_of m)) = Inr (m_trigger r) \<and>
                      m_gateList r = [] \<and> m_recordStop r = StopMarker_default) (m # ms) (?r # new)"
    using 1(1) 2(4) by simp
  ultimately show ?case
    using 2(2) by blast
qed

text \<open>
  Claim C3. In normal mode a call of \<^verbatim>\<open>DecodeNextMarker\<close> on a stream that starts with
  a 16-element trigger marker consumes these 16 elements and appends to the queue one
  record with the decoded trigger marker and no gates; on a stream whose first element
  does not carry a trigger tag the call throws. Hence \<open>K\<close> calls on a stream made of
  \<open>K\<close> such markers, \<open>16 * K\<close> elements, succeed, append \<open>K\<close> records, the
  \<open>i\<close>-th holding the decoding of the \<open>i\<close>-th marker, and leave the stream empty.
\<close>

theorem Normal_mode_decodes_trigger_markers:
  assumes "m_mode d = Normal" and "segment_ok s"
  shows "(window s = m @ rest \<and> length m = 16 \<and> IsTriggerMarkerTag (ExtractTag (m ! 0)) \<longrightarrow>
            (\<exists>t s'. fst (DecodeTriggerMarker (stream_of m)) = Inr t \<and>
               DecodeNextMarker d s =
                 (None,
                  d\<lparr>m_recordQueue := m_recordQueue d
                       @ [\<lparr>m_trigger = t, m_gateList = [], m_recordStop = StopMarker_default\<rparr>]\<rparr>,
                  s') \<and>
               window s' = rest \<and> Size s' = Size s - 16)) \<and>
         (window s = h # rest \<and> \<not> IsTriggerMarkerTag (ExtractTag h) \<longrightarrow>
            DecodeNextMarker d s = (Some runtime_error, d, s)) \<and>
         (window s = concat ms \<and>
          (\<forall>m \<in> set ms. length m = 16 \<and> IsTriggerMarkerTag (ExtractTag (m ! 0))) \<longrightarrow>
            Size s = 16 * length ms \<and>
            (\<exists>d' s' new.
               DecodeNextMarker_times (length ms) d s = (None, d', s') \<and> Size s' = 0 \<and>
               m_recordQueue d' = m_recordQueue d @ new \<and> length new = length ms \<and>
               list_all2 (\<lambda>m r. fst (DecodeTriggerMarker (stream_of m)) = Inr (m_trigger r) \<and>
                                m_gateList r = [] \<and> m_recordStop r = StopMarker_default) ms new))"
proof -
  have one: "window s = m @ rest \<and> length m = 16 \<and> IsTriggerMarkerTag (ExtractTag (m ! 0)) \<longrightarrow>
            (\<exists>t s'. fst (DecodeTriggerMarker (stream_of m)) = Inr t \<and>
               DecodeNextMarker d s =
                 (None,
                  d\<lparr>m_recordQueue := m_recordQueue d
                       @ [\<lparr>m_trigger = t, m_gateList = [], m_recordStop = StopMarker_default\<rparr>]\<rparr>,
                  s') \<and>
               window s' = rest \<and> Size s' = Size s - 16)"
  proof
    assume a: "window s = m @ rest \<and> length m = 16 \<and> IsTriggerMarkerTag (ExtractTag (m ! 0))"
    then have w: "window s = m @ rest" and m: "length m = 16"
      "IsTriggerMarkerTag (ExtractTag (m ! 0))"
      by simp_all
    from Normal_mode_step [OF assms w m]
    obtain t s' where 1: "fst (DecodeTriggerMarker (stream_of m)) = Inr t"
      "DecodeNextMarker d s =
         (None,
          d\<lparr>m_recordQueue := m_recordQueue d
               @ [\<lparr>m_trigger = t, m_gateList = [], m_recordStop = StopMarker_default\<rparr>]\<rparr>,
          s')"
      "segment_ok s'" "window s' = rest"
      by blast
    have "Size s' = Size s - 16"
      using length_window [OF assms(2)] length_window [OF 1(3)] 1(4) w m by simp
    with 1 show "\<exists>t s'. fst (DecodeTriggerMarker (stream_of m)) = Inr t \<and>
               DecodeNextMarker d s =
                 (None,
                  d\<lparr>m_recordQueue := m_recordQueue d
                       @ [\<lparr>m_trigger = t, m_gateList = [], m_recordStop = StopMarker_default\<rparr>]\<rparr>,
                  s') \<and>
               window s' = rest \<and> Size s' = Size s - 16"
      by blast
  qed
  have bad: "window s = h # rest \<and> \<not> IsTriggerMarkerTag (ExtractTag h) \<longrightarrow>
            DecodeNextMarker d s = (Some runtime_error, d, s)"
  proof
    assume a: "window s = h # rest \<and> \<not> IsTriggerMarkerTag (ExtractTag h)"
    then have "Size s \<noteq> 0" "subscript s 0 = Inr h"
      using assms(2) by (simp_all add: Size_zero_window subscript_first)
    with a assms(1) show "DecodeNextMarker d s = (Some runtime_error, d, s)"
      by (simp add: DecodeNextMarker_def DecodeNextMarkerNormalMode_def DecodeTriggerMarker_def)
  qed
  have run: "window s = concat ms \<and>
          (\<forall>m \<in> set ms. length m = 16 \<and> IsTriggerMarkerTag (ExtractTag (m ! 0))) \<longrightarrow>
            Size s = 16 * length ms \<and>
            (\<exists>d' s' new.
               DecodeNextMarker_times (length ms) d s = (None, d', s') \<and> Size s' = 0 \<and>
               m_recordQueue d' = m_recordQueue d @ new \<and> length new = length ms \<and>
               list_all2 (\<lambda>m r. fst (DecodeTriggerMarker (stream_of m)) = Inr (m_trigger r) \<and>
                                m_gateList r = [] \<and> m_recordStop r = StopMarker_default) ms new)"
  proof
    assume a: "window s = concat ms \<and>
          (\<forall>m \<in> set ms. length m = 16 \<and> IsTriggerMarkerTag (ExtractTag (m ! 0)))"
    then have w: "window s = concat ms"
      and wf: "\<forall>m \<in> set ms. length m = 16 \<and> IsTriggerMarkerTag (ExtractTag (m ! 0))"
      by simp_all
    from wf have "length (concat ms) = 16 * length ms"
      by (induction ms) simp_all
    with w have sz: "Size s = 16 * length ms"
      using length_window [OF assms(2)] by simp
    from Normal_mode_run [OF assms w wf]
    obtain d' s' new where 1: "DecodeNextMarker_times (length ms) d s = (None, d', s')"
      "Size s' = 0" "m_recordQueue d' = m_recordQueue d @ new"
      "list_all2 (\<lambda>m r. fst (DecodeTriggerMarker (stream_of m)) = Inr (m_trigger r) \<and>
                        m_gateList r = [] \<and> m_recordStop r = StopMarker_default) ms new"
      by blast
    from 1(4) have "length new = length ms"
      by (simp add: list_all2_lengthD)
    with 1 sz show "Size s = 16 * length ms \<and>
            (\<exists>d' s' new.
               DecodeNextMarker_times (length ms) d s = (None, d', s') \<and> Size s' = 0 \<and>
               m_recordQueue d' = m_recordQueue d @ new \<and> length new = length ms \<and>
               list_all2 (\<lambda>m r. fst (DecodeTriggerMarker (stream_of m)) = Inr (m_trigger r) \<and>
                                m_gateList r = [] \<and> m_recordStop r = StopMarker_default) ms new)"
      by blast
  qed
  from one bad run show ?thesis
    by (intro conjI)
qed

theorem Normal_mode_decodes_trigger_markers_witness:
  "DecodeNextMarker_times 2 (decoder_holding Normal [])
       (stream_of (trigger_elements 0x00000101 0 0 @ trigger_elements 0x00000201 0 0))
     = (None, decoder_holding Normal [record_numbered 1, record_numbered 2],
        \<lparr>m_data = trigger_elements 0x00000101 0 0 @ trigger_elements 0x00000201 0 0,
         m_offset = 32, m_size = 0\<rparr>) \<and>
   DecodeNextMarker (decoder_holding Normal [])
       (stream_of (trigger_elements 0x00000101 0 0 @ trigger_elements 0x00000201 0 0))
     = (None, decoder_holding Normal [record_numbered 1],
        \<lparr>m_data = trigger_elements 0x00000101 0 0 @ trigger_elements 0x00000201 0 0,
         m_offset = 16, m_size = 16\<rparr>) \<and>
   DecodeNextMarker (decoder_holding Normal []) (stream_of [0x00000004, 0])
     = (Some runtime_error, decoder_holding Normal [], stream_of [0x00000004, 0])"
proof -
  let ?m1 = "trigger_elements 0x00000101 0 0" and ?m2 = "trigger_elements 0x00000201 0 0"
  let ?s = "stream_of (?m1 @ ?m2)"
  let ?s1 = "\<lparr>m_data = ?m1 @ ?m2, m_offset = 16, m_size = 16\<rparr>"
  let ?s2 = "\<lparr>m_data = ?m1 @ ?m2, m_offset = 32, m_size = 0\<rparr>"
  let ?d = "decoder_holding Normal []"
  have d: "m_mode ?d = Normal"
    by (simp add: decoder_holding_def MarkerStreamDecoder_ctor_def)
  have ok: "segment_ok ?s"
    by (simp add: stream_of_window SIZE_MAX_def trigger_elements_def)
  have wf: "window ?s = concat [?m1, ?m2] \<and>
            (\<forall>m \<in> set [?m1, ?m2]. length m = 16 \<and> IsTriggerMarkerTag (ExtractTag (m ! 0)))"
    by (simp add: stream_of_window SIZE_MAX_def trigger_elements_def IsTriggerMarkerTag_def ExtractTag_def)
  from Normal_mode_decodes_trigger_markers [OF d ok, where ms = "[?m1, ?m2]"] wf
  obtain d' s' where run: "DecodeNextMarker_times (length [?m1, ?m2]) ?d ?s = (None, d', s')"
    by blast
  have e1: "DecodeNextMarker ?d ?s = (None, decoder_holding Normal [record_numbered 1], ?s1)"
    by (simp add: stream_of_def trigger_elements_def
                  MarkerStreamDecoder_ctor_def decoder_holding_def record_numbered_def
                  DecodeNextMarker_def DecodeNextMarkerNormalMode_def DecodeTriggerMarker_def
                  subscript_def size_t_wrap_def PopFront_def Size_def ExtractTag_def IsTriggerMarkerTag_def
                  RecordIndexMask_def SetTriggerMarker_def RecordDescriptor_default_def
                  TriggerMarker_default_def)
  have e2: "DecodeNextMarker (decoder_holding Normal [record_numbered 1]) ?s1
              = (None, decoder_holding Normal [record_numbered 1, record_numbered 2], ?s2)"
    by (simp add: trigger_elements_def
                  MarkerStreamDecoder_ctor_def decoder_holding_def record_numbered_def
                  DecodeNextMarker_def DecodeNextMarkerNormalMode_def DecodeTriggerMarker_def
                  subscript_def size_t_wrap_def PopFront_def Size_def ExtractTag_def IsTriggerMarkerTag_def
                  RecordIndexMask_def SetTriggerMarker_def RecordDescriptor_default_def
                  TriggerMarker_default_def)
  have e3: "DecodeNextMarker ?d (stream_of [0x00000004, 0])
              = (Some runtime_error, ?d, stream_of [0x00000004, 0])"
    by (simp add: stream_of_def DecodeNextMarker_def DecodeNextMarkerNormalMode_def
                  DecodeTriggerMarker_def MarkerStreamDecoder_ctor_def decoder_holding_def
                  subscript_def size_t_wrap_def Size_def ExtractTag_def IsTriggerMarkerTag_def)
  have "DecodeNextMarker_times 2 ?d ?s
          = (None, decoder_holding Normal [record_numbered 1, record_numbered 2], ?s2)"
    using run by (simp add: numeral_2_eq_2 e1 e2)
  with e1 e3 show ?thesis
    by (intro conjI)
qed

subsection \<open>The record stop marker of queued records\<close>

lemma DecodeNextMarkerNormalMode_queue:
  "DecodeNextMarkerNormalMode d s = (thrown, d', s') \<Longrightarrow>
   m_recordQueue d' = m_recordQueue d \<or>
   (\<exists>t. thrown = None \<and>
        m_recordQueue d' = m_recordQueue d
          @ [\<lparr>m_trigger = t, m_gateList = [], m_recordStop = StopMarker_default\<rparr>])"
  by (auto simp: DecodeNextMarkerNormalMode_def Let_def SetTriggerMarker_def
                 RecordDescriptor_default_def
           split: prod.splits sum.splits)

lemma DecodeNextMarkerZeroSuppressMode_queue:
  "DecodeNextMarkerZeroSuppressMode d s = (thrown, d', s') \<Longrightarrow>
   m_recordQueue d' = m_recordQueue d \<or>
   (\<exists>r. m_recordQueue d' = m_recordQueue d @ [r] \<and> ends_with_record_stop r)"
  by (auto simp: DecodeNextMarkerZeroSuppressMode_def Let_def complete_record_def
                 SetRecordStopMarker_def IsRecordStop_def ends_with_record_stop_def
           split: prod.splits sum.splits if_splits loop_exit.splits)

lemma DecodeNextMarker_queue:
  assumes "DecodeNextMarker d s = (thrown, d', s')"
  shows "m_recordQueue d' = m_recordQueue d \<or>
         (\<exists>r. m_recordQueue d' = m_recordQueue d @ [r] \<and> ends_with_record_stop r)"
proof (cases "Size s = 0")
  case True
  with assms show ?thesis by (simp add: DecodeNextMarker_def)
next
  case False
  show ?thesis
  proof (cases "m_mode d")
    case Normal
    with False assms have "DecodeNextMarkerNormalMode d s = (thrown, d', s')"
      by (simp add: DecodeNextMarker_def)
    from DecodeNextMarkerNormalMode_queue [OF this] show ?thesis
      by (auto simp: ends_with_record_stop_def StopMarker_default_def)
  next
    case ZeroSuppress
    with False assms have "DecodeNextMarkerZeroSuppressMode d s = (thrown, d', s')"
      by (simp add: DecodeNextMarker_def)
    then show ?thesis by (rule DecodeNextMarkerZeroSuppressMode_queue)
  qed
qed

lemma Pop_queue:
  "Pop d = (popped_record, d') \<Longrightarrow>
   set (m_recordQueue d') \<subseteq> set (m_recordQueue d) \<and>
   (\<forall>r. popped_record = Inr r \<longrightarrow> r \<in> set (m_recordQueue d))"
  by (auto simp: Pop_def split: list.splits)

lemma Take_loop_queue:
  "Take_loop k acc d = (taken_records, d') \<Longrightarrow>
   set (m_recordQueue d') \<subseteq> set (m_recordQueue d) \<and>
   (\<forall>rs. taken_records = Inr rs \<longrightarrow> set rs \<subseteq> set acc \<union> set (m_recordQueue d))"
proof (induction k arbitrary: acc d)
  case 0
  then show ?case by auto
next
  case (Suc k)
  show ?case
  proof (cases "m_recordQueue d")
    case Nil
    with Suc.prems show ?thesis by (auto simp: Pop_def)
  next
    case (Cons r rest)
    with Suc.prems have "Take_loop k (acc @ [r]) (d\<lparr>m_recordQueue := rest\<rparr>) = (taken_records, d')"
      by (simp add: Pop_Cons)
    from Suc.IH [OF this] Cons show ?thesis by auto
  qed
qed

lemma Take_queue:
  "Take count d = (taken_records, d') \<Longrightarrow>
   set (m_recordQueue d') \<subseteq> set (m_recordQueue d) \<and>
   (\<forall>rs. taken_records = Inr rs \<longrightarrow> set rs \<subseteq> set (m_recordQueue d))"
  using Take_loop_queue [of "nat count" "[]" d taken_records d']
  by (auto simp: Take_def split: if_splits)

lemma reachable_queue:
  "reachable d \<Longrightarrow> \<forall>r \<in> set (m_recordQueue d). ends_with_record_stop r"
proof (induction rule: reachable.induct)
  case (constructed mode)
  show ?case by (simp add: MarkerStreamDecoder_ctor_def)
next
  case (decoded d stream thrown d' stream')
  from DecodeNextMarker_queue [OF decoded.hyps(2)] decoded.IH show ?case by auto
next
  case (popped d popped_record d')
  from Pop_queue [OF popped.hyps(2)] popped.IH show ?case by auto
next
  case (taken d count taken_records d')
  from Take_queue [OF taken.hyps(2)] taken.IH show ?case by auto
qed

text \<open>
  Claim C10. Every record in the queue of a decoder, and so every record that \<^verbatim>\<open>Pop\<close>
  or \<^verbatim>\<open>Take\<close> returns, has a record stop marker with the tag \<^verbatim>\<open>RecordStop\<close>.
  \<^verbatim>\<open>SetRecordStopMarker\<close> throws on a marker with another tag and otherwise stores a
  marker with that tag. In normal mode a successful call appends a record without
  gates that carries the marker built by \<^verbatim>\<open>StopMarker()\<close>: tag \<^verbatim>\<open>RecordStop\<close>, block
  index 1, gate end index 0.
\<close>

theorem queued_records_end_with_record_stop:
  assumes "reachable d"
  shows "(\<forall>r \<in> set (m_recordQueue d). m_tag (m_recordStop r) = RecordStop) \<and>
         (\<forall>r d'. Pop d = (Inr r, d') \<longrightarrow> m_tag (m_recordStop r) = RecordStop) \<and>
         (\<forall>count rs d'. Take count d = (Inr rs, d') \<longrightarrow>
            (\<forall>r \<in> set rs. m_tag (m_recordStop r) = RecordStop)) \<and>
         (\<forall>m r. \<not> IsRecordStop m \<longrightarrow> SetRecordStopMarker m r = Inl invalid_argument) \<and>
         (\<forall>m r r'. SetRecordStopMarker m r = Inr r' \<longrightarrow> m_tag (m_recordStop r') = RecordStop) \<and>
         StopMarker_default = \<lparr>m_stopBlockIndex = 1, m_gateEndIndex = 0, m_tag = RecordStop\<rparr> \<and>
         (\<forall>s d' s'. m_mode d = Normal \<and> DecodeNextMarker d s = (None, d', s') \<longrightarrow>
            (\<exists>t. m_recordQueue d' = m_recordQueue d
                    @ [\<lparr>m_trigger = t, m_gateList = [], m_recordStop = StopMarker_default\<rparr>]))"
proof -
  from assms have q: "\<forall>r \<in> set (m_recordQueue d). m_tag (m_recordStop r) = RecordStop"
    using reachable_queue [of d] by (simp add: ends_with_record_stop_def)
  have p: "\<forall>r d'. Pop d = (Inr r, d') \<longrightarrow> m_tag (m_recordStop r) = RecordStop"
    using q Pop_queue by blast
  have t: "\<forall>count rs d'. Take count d = (Inr rs, d') \<longrightarrow>
            (\<forall>r \<in> set rs. m_tag (m_recordStop r) = RecordStop)"
    using q Take_queue by blast
  have s1: "\<forall>m r. \<not> IsRecordStop m \<longrightarrow> SetRecordStopMarker m r = Inl invalid_argument"
    by (simp add: SetRecordStopMarker_def)
  have s2: "\<forall>m r r'. SetRecordStopMarker m r = Inr r' \<longrightarrow> m_tag (m_recordStop r') = RecordStop"
    by (auto simp: SetRecordStopMarker_def IsRecordStop_def split: if_splits)
  have n: "\<forall>s d' s'. m_mode d = Normal \<and> DecodeNextMarker d s = (None, d', s') \<longrightarrow>
            (\<exists>t. m_recordQueue d' = m_recordQueue d
                    @ [\<lparr>m_trigger = t, m_gateList = [], m_recordStop = StopMarker_default\<rparr>])"
  proof (intro allI impI)
    fix s d' s'
    assume a: "m_mode d = Normal \<and> DecodeNextMarker d s = (None, d', s')"
    then have m: "m_mode d = Normal" and dn: "DecodeNextMarker d s = (None, d', s')"
      by simp_all
    from dn have "Size s \<noteq> 0"
      by (auto simp: DecodeNextMarker_def split: if_splits)
    with m dn have "DecodeNextMarkerNormalMode d s = (None, d', s')"
      by (simp add: DecodeNextMarker_def)
    then show "\<exists>t. m_recordQueue d' = m_recordQueue d
                    @ [\<lparr>m_trigger = t, m_gateList = [], m_recordStop = StopMarker_default\<rparr>]"
      by (auto simp: DecodeNextMarkerNormalMode_def Let_def SetTriggerMarker_def
                     RecordDescriptor_default_def
               split: prod.splits sum.splits)
  qed
  from q p t s1 s2 n show ?thesis
    by (simp only: StopMarker_default_def simp_thms)
qed

theorem queued_records_end_with_record_stop_witness:
  "m_recordQueue decoder_after_trigger_5 = [record_numbered 0x5] \<and>
   m_tag (m_recordStop (record_numbered 0x5)) = RecordStop \<and>
   Pop decoder_after_trigger_5 = (Inr (record_numbered 0x5), MarkerStreamDecoder_ctor Normal)"
proof -
  have "reachable decoder_after_trigger_5"
    unfolding decoder_after_trigger_5_def
    by (rule reachable.decoded
          [OF reachable.constructed,
           where thrown = "fst (DecodeNextMarker (MarkerStreamDecoder_ctor Normal)
                                  (stream_of (trigger_elements 0x00000501 0 0)))"
             and stream' = "snd (snd (DecodeNextMarker (MarkerStreamDecoder_ctor Normal)
                                        (stream_of (trigger_elements 0x00000501 0 0))))"])
       simp
  from queued_records_end_with_record_stop [OF this]
  have f: "\<forall>r \<in> set (m_recordQueue decoder_after_trigger_5). m_tag (m_recordStop r) = RecordStop"
    by (rule conjunct1)
  have e: "decoder_after_trigger_5
                   = (MarkerStreamDecoder_ctor Normal)\<lparr>m_recordQueue := [record_numbered 0x5]\<rparr>"
    by (simp add: decoder_after_trigger_5_def DecodeNextMarker_def DecodeNextMarkerNormalMode_def
                  DecodeTriggerMarker_def stream_of_def trigger_elements_def subscript_def size_t_wrap_def
                  PopFront_def Size_def ExtractTag_def IsTriggerMarkerTag_def RecordIndexMask_def
                  MarkerStreamDecoder_ctor_def record_numbered_def SetTriggerMarker_def
                  RecordDescriptor_default_def TriggerMarker_default_def)
  from f show ?thesis
    unfolding e by (simp add: Pop_def MarkerStreamDecoder_ctor_def)
qed

subsection \<open>Zero-suppress mode\<close>

lemma trigger_tag_not_dummy: "IsTriggerMarkerTag t \<Longrightarrow> t \<noteq> DummyGate"
  by (auto simp: IsTriggerMarkerTag_def)

lemma ZeroSuppress_trigger_step:
  assumes "m_mode d = ZeroSuppress" and "m_state d \<noteq> ExpectGate" and "segment_ok s"
    and "window s = concat ds @ m @ rest"
    and "\<forall>x \<in> set ds. length x = 2 \<and> ExtractTag (x ! 0) = DummyGate"
    and "length m = 16" and "IsTriggerMarkerTag (ExtractTag (m ! 0))"
  shows "\<exists>t s'. fst (DecodeTriggerMarker (stream_of m)) = Inr t \<and>
           DecodeNextMarker d s =
             (None,
              d\<lparr>m_currentRecord :=
                   \<lparr>m_trigger = t, m_gateList = [], m_recordStop = StopMarker_default\<rparr>,
                 m_state := ExpectGate\<rparr>,
              s') \<and>
           segment_ok s' \<and> window s' = rest"
proof -
  from assms(6) obtain h tl where m: "m = h # tl"
    by (cases m) auto
  with assms(7) have "ExtractTag (hd (m @ rest)) \<noteq> DummyGate"
    by (simp add: trigger_tag_not_dummy)
  with walkthrough_all_dummies_window [OF assms(3,4,5)] m
  obtain s1 where 1: "walkthrough_all_dummies s = (Broke, s1)" "segment_ok s1"
    "window s1 = m @ rest"
    by auto
  from trigger_marker_decodes [OF assms(6,7)]
  obtain t s0 where t: "DecodeTriggerMarker (stream_of m) = (Inr t, s0)"
    by blast
  from DecodeTriggerMarker_window [OF 1(2,3) assms(6) t]
  obtain s' where s': "DecodeTriggerMarker s1 = (Inr t, s')" "segment_ok s'" "window s' = rest"
    by blast
  have "Size s \<noteq> 0"
    using assms(3,4) m by (simp add: Size_zero_window)
  moreover have "m_state d = ExpectTrigger \<or> m_state d = ExpectAlign"
    using assms(2) by (cases "m_state d") simp_all
  ultimately show ?thesis
    using assms(1) 1 s' t
    by (auto simp: DecodeNextMarker_def DecodeNextMarkerZeroSuppressMode_def
                   SetTriggerMarker_def RecordDescriptor_default_def)
qed

lemma GateMarker_ctor_fields:
  "GateMarker_ctor start stop = Inr gate \<Longrightarrow>
   gate = \<lparr>m_startMarker = start, m_stopMarker = stop\<rparr>"
  by (auto simp: GateMarker_ctor_def split: if_splits)

lemma ZeroSuppress_gate_step:
  assumes "m_mode d = ZeroSuppress" and "m_state d = ExpectGate" and "segment_ok s"
    and "window s = a0 # a1 # b0 # b1 # rest"
    and "GateStartMarker_ctor a0 a1 = Inr start"
    and "StopMarker_ctor b0 b1 = Inr stop"
    and "GateMarker_ctor start stop = Inr gate"
  shows "\<exists>s'. DecodeNextMarker d s =
             (None,
              (if IsRecordStop stop
               then d\<lparr>m_recordQueue := m_recordQueue d
                         @ [(AddGate gate (m_currentRecord d))\<lparr>m_recordStop := stop\<rparr>],
                      m_currentRecord := (AddGate gate (m_currentRecord d))\<lparr>m_recordStop := stop\<rparr>,
                      m_state := ExpectAlign\<rparr>
               else d\<lparr>m_currentRecord := AddGate gate (m_currentRecord d)\<rparr>),
              s') \<and>
           segment_ok s' \<and> window s' = rest"
proof -
  from DecodeGateMarker_window [OF assms(3,4,5,6,7)]
  obtain s' where s': "DecodeGateMarker s = (Inr gate, s')" "segment_ok s'" "window s' = rest"
    by blast
  have "Size s \<noteq> 0" "subscript s 0 = Inr a0"
    using assms(3,4) by (simp_all add: Size_zero_window subscript_first)
  moreover have "ExtractTag a0 = GateStartCst"
    using assms(5) by (rule GateStartMarker_ctor_tag)
  moreover have "m_stopMarker gate = stop"
    using GateMarker_ctor_fields [OF assms(7)] by simp
  ultimately show ?thesis
    using assms(1,2) s'
    by (simp add: DecodeNextMarker_def DecodeNextMarkerZeroSuppressMode_def Let_def
                  complete_record_def SetRecordStopMarker_def)
qed
text \<open>
  Claim C2. A decoder in zero-suppress mode, in the state \<^verbatim>\<open>ExpectTrigger\<close> or
  \<^verbatim>\<open>ExpectAlign\<close>, is given a stream that starts with a trigger marker (16 elements),
  a gate start, a gate stop tagged \<^verbatim>\<open>GateStopCst\<close>, a gate start and a gate stop
  tagged \<^verbatim>\<open>RecordStop\<close> (2 elements each), every marker accepted by its constructor.
  Three calls of \<^verbatim>\<open>DecodeNextMarker\<close> succeed, append to the queue one record with
  the decoded trigger marker, exactly the two gates in order and the second stop marker
  as its record stop marker, consume the five markers and leave the decoder in the state
  \<^verbatim>\<open>ExpectAlign\<close>. If any number of dummy markers and then a trigger marker follow,
  the next call skips the dummy markers, decodes that trigger marker into a fresh record
  in progress and leaves the queue as it is.
\<close>

theorem ZeroSuppress_record_with_two_gates:
  assumes "m_mode d = ZeroSuppress"
    and "m_state d = ExpectTrigger \<or> m_state d = ExpectAlign"
    and "segment_ok s"
    and "window s = trig @ [a0, a1, b0, b1, c0, c1, e0, e1] @ rest"
    and "length trig = 16" and "IsTriggerMarkerTag (ExtractTag (trig ! 0))"
    and "GateStartMarker_ctor a0 a1 = Inr start1"
    and "StopMarker_ctor b0 b1 = Inr stop1" and "m_tag stop1 = GateStopCst"
    and "GateMarker_ctor start1 stop1 = Inr gate1"
    and "GateStartMarker_ctor c0 c1 = Inr start2"
    and "StopMarker_ctor e0 e1 = Inr stop2" and "m_tag stop2 = RecordStop"
    and "GateMarker_ctor start2 stop2 = Inr gate2"
  shows "\<exists>t d' s'.
           fst (DecodeTriggerMarker (stream_of trig)) = Inr t \<and>
           DecodeNextMarker_times 3 d s = (None, d', s') \<and>
           m_recordQueue d' = m_recordQueue d
             @ [\<lparr>m_trigger = t, m_gateList = [gate1, gate2], m_recordStop = stop2\<rparr>] \<and>
           m_tag stop2 = RecordStop \<and>
           m_state d' = ExpectAlign \<and> m_mode d' = ZeroSuppress \<and>
           segment_ok s' \<and> window s' = rest \<and>
           (\<forall>ds next_trig rest'.
              rest = concat ds @ next_trig @ rest' \<and>
              (\<forall>x \<in> set ds. length x = 2 \<and> ExtractTag (x ! 0) = DummyGate) \<and>
              length next_trig = 16 \<and> IsTriggerMarkerTag (ExtractTag (next_trig ! 0)) \<longrightarrow>
              (\<exists>t' s''.
                 fst (DecodeTriggerMarker (stream_of next_trig)) = Inr t' \<and>
                 DecodeNextMarker d' s' =
                   (None,
                    d'\<lparr>m_currentRecord :=
                          \<lparr>m_trigger = t', m_gateList = [], m_recordStop = StopMarker_default\<rparr>,
                       m_state := ExpectGate\<rparr>,
                    s'') \<and>
                 window s'' = rest'))"
proof -
  let ?r0 = "\<lambda>t. \<lparr>m_trigger = t, m_gateList = [], m_recordStop = StopMarker_default\<rparr>"
  let ?r1 = "\<lambda>t. \<lparr>m_trigger = t, m_gateList = [gate1], m_recordStop = StopMarker_default\<rparr>"
  let ?r2 = "\<lambda>t. \<lparr>m_trigger = t, m_gateList = [gate1, gate2], m_recordStop = stop2\<rparr>"
  have ng: "m_state d \<noteq> ExpectGate"
    using assms(2) by auto
  have w0: "window s = concat [] @ trig @ (a0 # a1 # b0 # b1 # c0 # c1 # e0 # e1 # rest)"
    using assms(4) by simp
  from ZeroSuppress_trigger_step [OF assms(1) ng assms(3) w0 _ assms(5,6)]
  obtain t s1 where 1: "fst (DecodeTriggerMarker (stream_of trig)) = Inr t"
    "DecodeNextMarker d s = (None, d\<lparr>m_currentRecord := ?r0 t, m_state := ExpectGate\<rparr>, s1)"
    "segment_ok s1" "window s1 = a0 # a1 # b0 # b1 # c0 # c1 # e0 # e1 # rest"
    by auto
  let ?d1 = "d\<lparr>m_currentRecord := ?r0 t, m_state := ExpectGate\<rparr>"
  have d1: "m_mode ?d1 = ZeroSuppress" "m_state ?d1 = ExpectGate"
    using assms(1) by simp_all
  have n1: "\<not> IsRecordStop stop1"
    using assms(9) by (simp add: IsRecordStop_def)
  from ZeroSuppress_gate_step [OF d1 1(3,4) assms(7,8,10)] n1
  obtain s2 where 2:
    "DecodeNextMarker ?d1 s1
       = (None, ?d1\<lparr>m_currentRecord := AddGate gate1 (m_currentRecord ?d1)\<rparr>, s2)"
    "segment_ok s2" "window s2 = c0 # c1 # e0 # e1 # rest"
    by auto
  let ?d2 = "d\<lparr>m_currentRecord := ?r1 t, m_state := ExpectGate\<rparr>"
  have d2eq: "?d1\<lparr>m_currentRecord := AddGate gate1 (m_currentRecord ?d1)\<rparr> = ?d2"
    by (simp add: AddGate_def)
  have d2: "m_mode ?d2 = ZeroSuppress" "m_state ?d2 = ExpectGate"
    using assms(1) by simp_all
  have y2: "IsRecordStop stop2"
    using assms(13) by (simp add: IsRecordStop_def)
  from ZeroSuppress_gate_step [OF d2 2(2,3) assms(11,12,14)] y2
  obtain s3 where 3:
    "DecodeNextMarker ?d2 s2
       = (None,
          ?d2\<lparr>m_recordQueue := m_recordQueue ?d2
                  @ [(AddGate gate2 (m_currentRecord ?d2))\<lparr>m_recordStop := stop2\<rparr>],
              m_currentRecord := (AddGate gate2 (m_currentRecord ?d2))\<lparr>m_recordStop := stop2\<rparr>,
              m_state := ExpectAlign\<rparr>,
          s3)"
    "segment_ok s3" "window s3 = rest"
    by auto
  let ?d3 = "d\<lparr>m_recordQueue := m_recordQueue d @ [?r2 t], m_currentRecord := ?r2 t,
               m_state := ExpectAlign\<rparr>"
  have d3eq: "?d2\<lparr>m_recordQueue := m_recordQueue ?d2
                  @ [(AddGate gate2 (m_currentRecord ?d2))\<lparr>m_recordStop := stop2\<rparr>],
              m_currentRecord := (AddGate gate2 (m_currentRecord ?d2))\<lparr>m_recordStop := stop2\<rparr>,
              m_state := ExpectAlign\<rparr> = ?d3"
    by (simp add: AddGate_def)
  have run: "DecodeNextMarker_times 3 d s = (None, ?d3, s3)"
    using 1(2) 2(1) 3(1) unfolding d2eq d3eq by (simp add: numeral_3_eq_3)
  have d3: "m_mode ?d3 = ZeroSuppress" "m_state ?d3 \<noteq> ExpectGate"
    using assms(1) by simp_all
  have next_call: "\<forall>ds next_trig rest'.
              rest = concat ds @ next_trig @ rest' \<and>
              (\<forall>x \<in> set ds. length x = 2 \<and> ExtractTag (x ! 0) = DummyGate) \<and>
              length next_trig = 16 \<and> IsTriggerMarkerTag (ExtractTag (next_trig ! 0)) \<longrightarrow>
              (\<exists>t' s''.
                 fst (DecodeTriggerMarker (stream_of next_trig)) = Inr t' \<and>
                 DecodeNextMarker ?d3 s3 =
                   (None,
                    ?d3\<lparr>m_currentRecord :=
                          \<lparr>m_trigger = t', m_gateList = [], m_recordStop = StopMarker_default\<rparr>,
                       m_state := ExpectGate\<rparr>,
                    s'') \<and>
                 window s'' = rest')"
  proof (intro allI impI)
    fix ds next_trig rest'
    assume a: "rest = concat ds @ next_trig @ rest' \<and>
              (\<forall>x \<in> set ds. length x = 2 \<and> ExtractTag (x ! 0) = DummyGate) \<and>
              length next_trig = 16 \<and> IsTriggerMarkerTag (ExtractTag (next_trig ! 0))"
    then have w: "window s3 = concat ds @ next_trig @ rest'"
      and dm: "\<forall>x \<in> set ds. length x = 2 \<and> ExtractTag (x ! 0) = DummyGate"
      and nt: "length next_trig = 16" "IsTriggerMarkerTag (ExtractTag (next_trig ! 0))"
      using 3(3) by simp_all
    from ZeroSuppress_trigger_step [OF d3 3(2) w dm nt]
    show "\<exists>t' s''.
                 fst (DecodeTriggerMarker (stream_of next_trig)) = Inr t' \<and>
                 DecodeNextMarker ?d3 s3 =
                   (None,
                    ?d3\<lparr>m_currentRecord :=
                          \<lparr>m_trigger = t', m_gateList = [], m_recordStop = StopMarker_default\<rparr>,
                       m_state := ExpectGate\<rparr>,
                    s'') \<and>
                 window s'' = rest'"
      by blast
  qed
  show ?thesis
    apply (rule exI [of _ t])
    apply (rule exI [of _ ?d3])
    apply (rule exI [of _ s3])
    apply (intro conjI)
            apply (rule 1(1))
           apply (rule run)
          apply simp
         apply (rule assms(13))
        apply simp
       apply (simp add: assms(1))
      apply (rule 3(2))
     apply (rule 3(3))
    apply (rule next_call)
    done
qed

theorem ZeroSuppress_record_with_two_gates_witness:
  "DecodeNextMarker_times 3 (decoder_holding ZeroSuppress []) (stream_of two_gate_elements)
     = (None,
        \<lparr>m_recordQueue = [two_gate_record], m_currentRecord = two_gate_record,
         m_mode = ZeroSuppress, m_state = ExpectAlign\<rparr>,
        \<lparr>m_data = two_gate_elements, m_offset = 24, m_size = 18\<rparr>) \<and>
   length (m_gateList two_gate_record) = 2 \<and>
   IsRecordStop (m_recordStop two_gate_record) \<and>
   DecodeNextMarker
       \<lparr>m_recordQueue = [two_gate_record], m_currentRecord = two_gate_record,
        m_mode = ZeroSuppress, m_state = ExpectAlign\<rparr>
       \<lparr>m_data = two_gate_elements, m_offset = 24, m_size = 18\<rparr>
     = (None,
        \<lparr>m_recordQueue = [two_gate_record], m_currentRecord = record_numbered 2,
         m_mode = ZeroSuppress, m_state = ExpectGate\<rparr>,
        \<lparr>m_data = two_gate_elements, m_offset = 42, m_size = 0\<rparr>)"
proof -
  let ?d0 = "decoder_holding ZeroSuppress []"
  let ?s0 = "stream_of two_gate_elements"
  let ?s1 = "\<lparr>m_data = two_gate_elements, m_offset = 16, m_size = 26\<rparr>"
  let ?s2 = "\<lparr>m_data = two_gate_elements, m_offset = 20, m_size = 22\<rparr>"
  let ?s3 = "\<lparr>m_data = two_gate_elements, m_offset = 24, m_size = 18\<rparr>"
  let ?s4 = "\<lparr>m_data = two_gate_elements, m_offset = 42, m_size = 0\<rparr>"
  let ?g1 = "\<lparr>m_startMarker = \<lparr>m_blockIndex = 2, m_startSampleIndex = 0\<rparr>,
              m_stopMarker = \<lparr>m_stopBlockIndex = 5, m_gateEndIndex = 0, m_tag = GateStopCst\<rparr>\<rparr>"
  let ?g2 = "\<lparr>m_startMarker = \<lparr>m_blockIndex = 6, m_startSampleIndex = 0\<rparr>,
              m_stopMarker = \<lparr>m_stopBlockIndex = 10, m_gateEndIndex = 0, m_tag = RecordStop\<rparr>\<rparr>"
  let ?d1 = "\<lparr>m_recordQueue = [], m_currentRecord = record_numbered 1,
              m_mode = ZeroSuppress, m_state = ExpectGate\<rparr>"
  let ?d2 = "\<lparr>m_recordQueue = [], m_currentRecord = (record_numbered 1)\<lparr>m_gateList := [?g1]\<rparr>,
              m_mode = ZeroSuppress, m_state = ExpectGate\<rparr>"
  let ?d3 = "\<lparr>m_recordQueue = [two_gate_record], m_currentRecord = two_gate_record,
              m_mode = ZeroSuppress, m_state = ExpectAlign\<rparr>"
  let ?d4 = "\<lparr>m_recordQueue = [two_gate_record], m_currentRecord = record_numbered 2,
              m_mode = ZeroSuppress, m_state = ExpectGate\<rparr>"
  note defs = two_gate_elements_def two_gate_record_def stream_of_def trigger_elements_def
    decoder_holding_def record_numbered_def MarkerStreamDecoder_ctor_def
    DecodeNextMarker_def DecodeNextMarkerZeroSuppressMode_def DecodeTriggerMarker_def
    DecodeGateMarker_def DecodeGateStartMarker_def DecodeStopMarker_def
    WalkthroughDummyMarker_def walkthrough_all_dummies.simps
    GateStartMarker_ctor_def StopMarker_ctor_def GateMarker_ctor_def ExtractPosition_def
    subscript_def size_t_wrap_def PopFront_def Size_def ExtractTag_def IsTriggerMarkerTag_def
    RecordIndexMask_def SetTriggerMarker_def AddGate_def SetRecordStopMarker_def
    IsRecordStop_def complete_record_def RecordDescriptor_default_def
    TriggerMarker_default_def StopMarker_default_def
  have e1: "DecodeNextMarker ?d0 ?s0 = (None, ?d1, ?s1)"
    by (simp add: defs)
  have e2: "DecodeNextMarker ?d1 ?s1 = (None, ?d2, ?s2)"
    by (simp add: defs)
  have e3: "DecodeNextMarker ?d2 ?s2 = (None, ?d3, ?s3)"
    by (simp add: defs)
  have e4: "DecodeNextMarker ?d3 ?s3 = (None, ?d4, ?s4)"
    by (simp add: defs)
  have run: "DecodeNextMarker_times 3 ?d0 ?s0 = (None, ?d3, ?s3)"
    by (simp add: numeral_3_eq_3 e1 e2 e3)
  have "m_mode ?d0 = ZeroSuppress" "m_state ?d0 = ExpectTrigger \<or> m_state ?d0 = ExpectAlign"
    "segment_ok ?s0"
    "window ?s0 = trigger_elements 0x00000101 0 0
       @ [0x02000004, 0, 0x05000005, 0, 0x06000004, 0, 0x0A00000A, 0]
       @ ([0x00000008, 0] @ trigger_elements 0x00000201 0 0)"
    "length (trigger_elements 0x00000101 0 0) = 16"
    "IsTriggerMarkerTag (ExtractTag (trigger_elements 0x00000101 0 0 ! 0))"
    "GateStartMarker_ctor 0x02000004 0 = Inr (m_startMarker ?g1)"
    "StopMarker_ctor 0x05000005 0 = Inr (m_stopMarker ?g1)"
    "m_tag (m_stopMarker ?g1) = GateStopCst"
    "GateMarker_ctor (m_startMarker ?g1) (m_stopMarker ?g1) = Inr ?g1"
    "GateStartMarker_ctor 0x06000004 0 = Inr (m_startMarker ?g2)"
    "StopMarker_ctor 0x0A00000A 0 = Inr (m_stopMarker ?g2)"
    "m_tag (m_stopMarker ?g2) = RecordStop"
    "GateMarker_ctor (m_startMarker ?g2) (m_stopMarker ?g2) = Inr ?g2"
    by (simp_all add: stream_of_window SIZE_MAX_def two_gate_elements_def trigger_elements_def
                      decoder_holding_def MarkerStreamDecoder_ctor_def
                      GateStartMarker_ctor_def StopMarker_ctor_def GateMarker_ctor_def
                      ExtractPosition_def ExtractTag_def IsTriggerMarkerTag_def)
  from ZeroSuppress_record_with_two_gates [OF this]
  obtain t d' s' where "DecodeNextMarker_times 3 ?d0 ?s0 = (None, d', s')"
    "m_state d' = ExpectAlign"
    by blast
  with run e4 show ?thesis
    by (simp add: two_gate_record_def IsRecordStop_def)
qed

end
